theory Spec2Isabelle
  imports Complex_Main
begin

section \<open>The storage engine, as far as models.py drives it\<close>

text \<open>
  models.py keeps all of its state in one SQLite file and talks to it through SQL text.
  The database is modelled as an association list from table names to tables, in the
  order in which the tables were created; a table carries its column definitions, its
  rows in scan order and the counter that AUTOINCREMENT keeps in sqlite_sequence.
  A row is an association list from column names to values, which is also what
  \<^verbatim>\<open>_row_factory\<close> hands back to Python (a dict in column order).

  Conventions of the model:
  \<^item> Python's \<^verbatim>\<open>None\<close> and SQL's NULL are both \<open>VNull\<close>; an optional argument is an
    \<open>option\<close>, a Python value read back from a row is a \<open>val\<close>.
  \<^item> Arguments are typed the way the schema declares their columns (text columns get
    strings, integer columns get integers, real columns get floats), so on the tables
    this module declares SQLite's affinity conversion is the identity on them; it is
    not modelled, and the properties below are stated for those tables.
  \<^item> A Python integer is bound to a statement only if it fits 64 bits; otherwise
    \<^verbatim>\<open>execute\<close> raises OverflowError, after the statement has been prepared and
    before it runs.
  \<^item> A Python float is a real number, an infinity or NaN; it is only stored and
    copied, and SQLite stores NaN as NULL.
  \<^item> SQLite matches the names of tables and columns without regard to ASCII case.
    The schema statements (CREATE TABLE IF NOT EXISTS, ALTER TABLE, PRAGMA table_info)
    are modelled so, since init_db has to cope with whatever database it finds. The
    data statements of the accessors look names up as they are written in models.py,
    in lower case, and the properties about them assume tables that carry those names.
  \<^item> Foreign keys are declared but not enforced by SQLite unless switched on, and
    models.py never switches them on: they are left out.
  \<^item> A statement that raises leaves the uncommitted work of its connection behind:
    the accessor returns the error and the database as it was before its first
    uncommitted statement.
\<close>

datatype pyfloat = Float real | PosInf | NegInf | NaN

datatype val = VNull | VInt int | VReal pyfloat | VText string

datatype error = OperationalError | IntegrityError | OverflowError | TypeError | ValueError

type_synonym row = "(string \<times> val) list"

datatype dflt = NoDefault | DefaultVal val | CurrentTimestamp

datatype coldef = Col
  (c_name: string)
  (c_type: string)
  (c_pk: bool)
  (c_notnull: bool)
  (c_unique: bool)
  (c_default: dflt)
  (c_check: "(int \<times> int) option")

datatype table = Table (t_cols: "coldef list") (t_rows: "row list") (t_seq: int)

type_synonym db = "(string \<times> table) list"

text \<open>What an accessor leaves behind: the database, and the error raised or the value returned.\<close>

type_synonym 'a outcome = "db \<times> (error + 'a)"

definition getv :: "row \<Rightarrow> string \<Rightarrow> val" where
  "getv r c = (case map_of r c of None \<Rightarrow> VNull | Some v \<Rightarrow> v)"

primrec put :: "string \<Rightarrow> val \<Rightarrow> row \<Rightarrow> row" where
  "put c v [] = [(c, v)]"
| "put c v (p # ps) = (if fst p = c then (c, v) # ps else p # put c v ps)"

primrec set_table :: "db \<Rightarrow> string \<Rightarrow> table \<Rightarrow> db" where
  "set_table [] n t = []"
| "set_table (p # d) n t = (if fst p = n then (n, t) # d else p # set_table d n t)"

definition find_col :: "coldef list \<Rightarrow> string \<Rightarrow> coldef option" where
  "find_col cs n = find (\<lambda>c. c_name c = n) cs"

text \<open>
  Names as the schema statements match them: two names are the same when they agree
  after ASCII letters are put in lower case.
\<close>

definition lower_char :: "char \<Rightarrow> char" where
  "lower_char c =
     (let n = (of_char c :: nat) in if 65 \<le> n \<and> n \<le> 90 then char_of (n + 32) else c)"

definition fold_name :: "string \<Rightarrow> string" where
  "fold_name n = map lower_char n"

definition same_name :: "string \<Rightarrow> string \<Rightarrow> bool" where
  "same_name a b = (fold_name a = fold_name b)"

primrec tbl :: "db \<Rightarrow> string \<Rightarrow> table option" where
  "tbl [] n = None"
| "tbl (p # d) n = (if same_name (fst p) n then Some (snd p) else tbl d n)"

primrec set_tbl :: "db \<Rightarrow> string \<Rightarrow> table \<Rightarrow> db" where
  "set_tbl [] n t = []"
| "set_tbl (p # d) n t = (if same_name (fst p) n then (fst p, t) # d else p # set_tbl d n t)"

definition has_col_named :: "coldef list \<Rightarrow> string \<Rightarrow> bool" where
  "has_col_named cs n = list_ex (\<lambda>c. same_name (c_name c) n) cs"

text \<open>
  The integers that can be bound to a statement, and the values of a statement's
  parameters that can be bound.
\<close>

definition int64 :: "int \<Rightarrow> bool" where
  "int64 i = (- 9223372036854775808 \<le> i \<and> i \<le> 9223372036854775807)"

definition bindable :: "val \<Rightarrow> bool" where
  "bindable v = (case v of VInt i \<Rightarrow> int64 i | _ \<Rightarrow> True)"

definition has_cols :: "db \<Rightarrow> string \<Rightarrow> string list \<Rightarrow> bool" where
  "has_cols d n cs = (case map_of d n of None \<Rightarrow> False
     | Some t \<Rightarrow> list_all (\<lambda>c. find_col (t_cols t) c \<noteq> None) cs)"

subsection \<open>Comparisons and WHERE clauses\<close>

text \<open>
  SQL comparison is three-valued: a comparison with NULL is NULL (\<open>None\<close>). Integers and
  reals compare by value, text compares with text, and values of different storage
  classes are never equal.
\<close>

fun fl_le :: "pyfloat \<Rightarrow> pyfloat \<Rightarrow> bool" where
  "fl_le NaN _ = False"
| "fl_le _ NaN = False"
| "fl_le NegInf _ = True"
| "fl_le _ PosInf = True"
| "fl_le (Float x) (Float y) = (x \<le> y)"
| "fl_le _ _ = False"

definition fl_eq :: "pyfloat \<Rightarrow> pyfloat \<Rightarrow> bool" where
  "fl_eq a b = (fl_le a b \<and> fl_le b a)"

definition fl_lt :: "pyfloat \<Rightarrow> pyfloat \<Rightarrow> bool" where
  "fl_lt a b = (fl_le a b \<and> \<not> fl_le b a)"

fun sql_eq :: "val \<Rightarrow> val \<Rightarrow> bool option" where
  "sql_eq VNull _ = None"
| "sql_eq _ VNull = None"
| "sql_eq (VInt i) (VInt j) = Some (i = j)"
| "sql_eq (VInt i) (VReal y) = Some (fl_eq (Float (of_int i)) y)"
| "sql_eq (VReal x) (VInt j) = Some (fl_eq x (Float (of_int j)))"
| "sql_eq (VReal x) (VReal y) = Some (fl_eq x y)"
| "sql_eq (VText s) (VText u) = Some (s = u)"
| "sql_eq _ _ = Some False"

datatype cond = Eq string val | And cond cond | Or cond cond

fun and3 :: "bool option \<Rightarrow> bool option \<Rightarrow> bool option" where
  "and3 (Some False) _ = Some False"
| "and3 _ (Some False) = Some False"
| "and3 (Some True) (Some True) = Some True"
| "and3 _ _ = None"

fun or3 :: "bool option \<Rightarrow> bool option \<Rightarrow> bool option" where
  "or3 (Some True) _ = Some True"
| "or3 _ (Some True) = Some True"
| "or3 (Some False) (Some False) = Some False"
| "or3 _ _ = None"

fun eval_cond :: "cond \<Rightarrow> row \<Rightarrow> bool option" where
  "eval_cond (Eq c v) r = sql_eq (getv r c) v"
| "eval_cond (And a b) r = and3 (eval_cond a r) (eval_cond b r)"
| "eval_cond (Or a b) r = or3 (eval_cond a r) (eval_cond b r)"

text \<open>A row is selected when the WHERE clause is true, not when it is false or NULL.\<close>

definition holds :: "cond \<Rightarrow> row \<Rightarrow> bool" where
  "holds w r = (eval_cond w r = Some True)"

fun cond_cols :: "cond \<Rightarrow> string list" where
  "cond_cols (Eq c v) = [c]"
| "cond_cols (And a b) = cond_cols a @ cond_cols b"
| "cond_cols (Or a b) = cond_cols a @ cond_cols b"

fun cond_vals :: "cond \<Rightarrow> val list" where
  "cond_vals (Eq c v) = [v]"
| "cond_vals (And a b) = cond_vals a @ cond_vals b"
| "cond_vals (Or a b) = cond_vals a @ cond_vals b"

definition known_cols :: "table \<Rightarrow> string list \<Rightarrow> bool" where
  "known_cols t cs = list_all (\<lambda>c. find_col (t_cols t) c \<noteq> None) cs"

subsection \<open>Statements\<close>

text \<open>
  CREATE TABLE IF NOT EXISTS: a new, empty table at the end, or nothing when a table
  of that name, in whatever case, exists.
\<close>

definition create_table_if_not_exists :: "db \<Rightarrow> string \<Rightarrow> coldef list \<Rightarrow> db" where
  "create_table_if_not_exists d n cs =
     (case tbl d n of Some t \<Rightarrow> d | None \<Rightarrow> d @ [(n, Table cs [] 0)])"

text \<open>
  ALTER TABLE ADD COLUMN: fails on a missing table and on a column name that the table
  already has, in whatever case; existing rows read the new column as NULL.
\<close>

definition alter_add_column :: "db \<Rightarrow> string \<Rightarrow> coldef \<Rightarrow> error + db" where
  "alter_add_column d n c =
     (case tbl d n of None \<Rightarrow> Inl OperationalError
      | Some t \<Rightarrow>
          if has_col_named (t_cols t) (c_name c) then Inl OperationalError
          else Inr (set_tbl d n
                 (Table (t_cols t @ [c]) (map (\<lambda>r. r @ [(c_name c, VNull)]) (t_rows t)) (t_seq t))))"

text \<open>
  The CHECK constraint of the schema has the shape \<open>lo \<le> column AND column \<le> hi\<close>; a
  CHECK fails only when its expression is false, so NULL passes. Text sorts after every
  number, so it fails the upper bound.
\<close>

definition check_ok :: "(int \<times> int) option \<Rightarrow> val \<Rightarrow> bool" where
  "check_ok ck v = (case ck of None \<Rightarrow> True
     | Some (lo, hi) \<Rightarrow>
        (case v of VNull \<Rightarrow> True
         | VInt i \<Rightarrow> lo \<le> i \<and> i \<le> hi
         | VReal x \<Rightarrow> fl_le (Float (of_int lo)) x \<and> fl_le x (Float (of_int hi))
         | VText s \<Rightarrow> False))"

definition clashes :: "row list \<Rightarrow> string \<Rightarrow> val \<Rightarrow> bool" where
  "clashes rows c v = list_ex (\<lambda>r. sql_eq (getv r c) v = Some True) rows"

definition violates :: "row list \<Rightarrow> coldef \<Rightarrow> val \<Rightarrow> bool" where
  "violates rows c v =
     ((c_notnull c \<and> v = VNull) \<or> \<not> check_ok (c_check c) v
      \<or> ((c_unique c \<or> c_pk c) \<and> clashes rows (c_name c) v))"

text \<open>
  The rowid of a new row of an AUTOINCREMENT table: one more than the largest rowid the
  table holds or has ever held.
\<close>

definition row_ids :: "string \<Rightarrow> row list \<Rightarrow> int list" where
  "row_ids k rows = concat (map (\<lambda>r. case getv r k of VInt i \<Rightarrow> [i] | _ \<Rightarrow> []) rows)"

definition next_rowid :: "table \<Rightarrow> int" where
  "next_rowid t =
     1 + fold max (concat (map (\<lambda>c. row_ids (c_name c) (t_rows t)) (filter c_pk (t_cols t))))
           (t_seq t)"

text \<open>
  The rowid of the row an INSERT adds: the integer given for the INTEGER PRIMARY KEY
  column, or else the next rowid; there is none once the largest rowid, \<open>2^63 - 1\<close>,
  has been used (SQLITE_FULL, which Python raises as OperationalError).
\<close>

definition new_rowid :: "table \<Rightarrow> (string \<times> val) list \<Rightarrow> int option" where
  "new_rowid t vs =
     (case (case find c_pk (t_cols t) of
              None \<Rightarrow> None
            | Some k \<Rightarrow> (case map_of vs (c_name k) of Some (VInt i) \<Rightarrow> Some i | _ \<Rightarrow> None)) of
        Some i \<Rightarrow> Some i
      | None \<Rightarrow> if next_rowid t \<le> 9223372036854775807 then Some (next_rowid t) else None)"

text \<open>
  The value a new row gets in one column: the bound parameter when the statement names
  the column (NULL in the INTEGER PRIMARY KEY column asks for a fresh rowid), the rowid
  or the column's default otherwise.
\<close>

definition cell :: "(string \<times> val) list \<Rightarrow> string \<Rightarrow> int \<Rightarrow> coldef \<Rightarrow> val" where
  "cell vs ts rid c =
     (case map_of vs (c_name c) of
        Some v \<Rightarrow> (if c_pk c \<and> v = VNull then VInt rid else v)
      | None \<Rightarrow>
          (if c_pk c then VInt rid
           else case c_default c of
                  NoDefault \<Rightarrow> VNull
                | DefaultVal v \<Rightarrow> v
                | CurrentTimestamp \<Rightarrow> VText ts))"

text \<open>
  INSERT INTO n (columns) VALUES (parameters), with \<open>ts\<close> the text of CURRENT_TIMESTAMP.
  Preparing the statement fails on an unknown table or column (OperationalError);
  binding fails on an integer beyond 64 bits (OverflowError); running it fails when no
  rowid is left (OperationalError) and then on a violated constraint (IntegrityError).
  The result is the new database and \<^verbatim>\<open>cursor.lastrowid\<close>.
\<close>

definition exec_insert ::
  "db \<Rightarrow> string \<Rightarrow> (string \<times> val) list \<Rightarrow> string \<Rightarrow> error + (db \<times> int)" where
  "exec_insert d n vs ts =
     (case map_of d n of None \<Rightarrow> Inl OperationalError
      | Some t \<Rightarrow>
          if \<not> known_cols t (map fst vs) then Inl OperationalError
          else if \<not> list_all bindable (map snd vs) then Inl OverflowError
          else
            (case new_rowid t vs of
               None \<Rightarrow> Inl OperationalError
             | Some rid \<Rightarrow>
                 let r = map (\<lambda>c. (c_name c, cell vs ts rid c)) (t_cols t)
                 in if list_ex (\<lambda>c. violates (t_rows t) c (getv r (c_name c))) (t_cols t)
                    then Inl IntegrityError
                    else Inr (set_table d n
                                (Table (t_cols t) (t_rows t @ [r]) (max (t_seq t) rid)),
                              rid)))"

text \<open>SELECT columns FROM n WHERE w, in scan order, each row as the dict of the selected columns.\<close>

definition exec_select :: "db \<Rightarrow> string \<Rightarrow> string list \<Rightarrow> cond option \<Rightarrow> error + row list" where
  "exec_select d n cs w =
     (case map_of d n of None \<Rightarrow> Inl OperationalError
      | Some t \<Rightarrow>
          if \<not> known_cols t (cs @ (case w of None \<Rightarrow> [] | Some c \<Rightarrow> cond_cols c))
          then Inl OperationalError
          else if \<not> list_all bindable (case w of None \<Rightarrow> [] | Some c \<Rightarrow> cond_vals c)
          then Inl OverflowError
          else Inr (map (\<lambda>r. map (\<lambda>c. (c, getv r c)) cs)
                     (filter (\<lambda>r. case w of None \<Rightarrow> True | Some c \<Rightarrow> holds c r) (t_rows t))))"

text \<open>DELETE FROM n WHERE w; the number is \<^verbatim>\<open>cursor.rowcount\<close>.\<close>

definition exec_delete :: "db \<Rightarrow> string \<Rightarrow> cond \<Rightarrow> error + (db \<times> nat)" where
  "exec_delete d n w =
     (case map_of d n of None \<Rightarrow> Inl OperationalError
      | Some t \<Rightarrow>
          if \<not> known_cols t (cond_cols w) then Inl OperationalError
          else if \<not> list_all bindable (cond_vals w) then Inl OverflowError
          else Inr (set_table d n
                      (Table (t_cols t) (filter (\<lambda>r. \<not> holds w r) (t_rows t)) (t_seq t)),
                    length (filter (holds w) (t_rows t))))"

text \<open>
  UPDATE n SET assignments WHERE w. SQLite checks the constraints of the columns that
  are assigned, on the rows that are updated; two rows cannot both receive the same
  value in a UNIQUE column.
\<close>

definition assign :: "(string \<times> val) list \<Rightarrow> row \<Rightarrow> row" where
  "assign sets r = fold (\<lambda>(c, v). put c v) sets r"

definition set_violates :: "table \<Rightarrow> cond \<Rightarrow> string \<times> val \<Rightarrow> bool" where
  "set_violates t w cv =
     (case find_col (t_cols t) (fst cv) of None \<Rightarrow> False
      | Some k \<Rightarrow>
          (c_notnull k \<and> snd cv = VNull) \<or> \<not> check_ok (c_check k) (snd cv)
          \<or> ((c_unique k \<or> c_pk k) \<and> snd cv \<noteq> VNull
              \<and> (1 < length (filter (holds w) (t_rows t))
                  \<or> clashes (filter (\<lambda>r. \<not> holds w r) (t_rows t)) (fst cv) (snd cv))))"

definition exec_update ::
  "db \<Rightarrow> string \<Rightarrow> (string \<times> val) list \<Rightarrow> cond \<Rightarrow> error + (db \<times> nat)" where
  "exec_update d n sets w =
     (case map_of d n of None \<Rightarrow> Inl OperationalError
      | Some t \<Rightarrow>
          if \<not> known_cols t (map fst sets @ cond_cols w) then Inl OperationalError
          else if \<not> list_all bindable (map snd sets @ cond_vals w) then Inl OverflowError
          else if filter (holds w) (t_rows t) \<noteq> [] \<and> list_ex (set_violates t w) sets
          then Inl IntegrityError
          else Inr (set_table d n
                      (Table (t_cols t)
                         (map (\<lambda>r. if holds w r then assign sets r else r) (t_rows t))
                         (t_seq t)),
                    length (filter (holds w) (t_rows t))))"

text \<open>\<^verbatim>\<open>cursor.fetchone()\<close>: the first row, or None.\<close>

definition fetchone :: "row list \<Rightarrow> row option" where
  "fetchone rows = (case rows of [] \<Rightarrow> None | r # _ \<Rightarrow> Some r)"

section \<open>Schema management: init_db\<close>

definition users_cols :: "coldef list" where
  "users_cols =
    [Col ''id'' ''INTEGER'' True False False NoDefault None,
     Col ''email'' ''TEXT'' False True True NoDefault None,
     Col ''password_hash'' ''TEXT'' False True False NoDefault None,
     Col ''role'' ''TEXT'' False True False (DefaultVal (VText ''candidate'')) None,
     Col ''is_banned'' ''INTEGER'' False True False (DefaultVal (VInt 0)) None,
     Col ''banned_until'' ''TEXT'' False False False NoDefault None,
     Col ''created_at'' ''DATETIME'' False False False CurrentTimestamp None]"

definition jobs_cols :: "coldef list" where
  "jobs_cols =
    [Col ''id'' ''INTEGER'' True False False NoDefault None,
     Col ''employer_id'' ''INTEGER'' False True False NoDefault None,
     Col ''title'' ''TEXT'' False True False NoDefault None,
     Col ''description'' ''TEXT'' False True False NoDefault None,
     Col ''location_text'' ''TEXT'' False False False NoDefault None,
     Col ''lat'' ''REAL'' False False False NoDefault None,
     Col ''lng'' ''REAL'' False False False NoDefault None,
     Col ''salary'' ''TEXT'' False False False NoDefault None,
     Col ''tags'' ''TEXT'' False False False NoDefault None,
     Col ''created_at'' ''DATETIME'' False False False CurrentTimestamp None]"

definition applications_cols :: "coldef list" where
  "applications_cols =
    [Col ''id'' ''INTEGER'' True False False NoDefault None,
     Col ''job_id'' ''INTEGER'' False True False NoDefault None,
     Col ''user_id'' ''INTEGER'' False True False NoDefault None,
     Col ''cover_letter'' ''TEXT'' False False False NoDefault None,
     Col ''resume_text'' ''TEXT'' False False False NoDefault None,
     Col ''created_at'' ''DATETIME'' False False False CurrentTimestamp None]"

definition ratings_cols :: "coldef list" where
  "ratings_cols =
    [Col ''id'' ''INTEGER'' True False False NoDefault None,
     Col ''target_type'' ''TEXT'' False True False NoDefault None,
     Col ''target_id'' ''INTEGER'' False True False NoDefault None,
     Col ''rater_id'' ''INTEGER'' False True False NoDefault None,
     Col ''rating'' ''INTEGER'' False True False NoDefault (Some (1, 5)),
     Col ''comment'' ''TEXT'' False False False NoDefault None,
     Col ''created_at'' ''DATETIME'' False False False CurrentTimestamp None]"

text \<open>The tokens table as init_db declares it: the expiry is a nullable DATETIME.\<close>

definition tokens_cols :: "coldef list" where
  "tokens_cols =
    [Col ''id'' ''INTEGER'' True False False NoDefault None,
     Col ''token'' ''TEXT'' False True True NoDefault None,
     Col ''email'' ''TEXT'' False True False NoDefault None,
     Col ''purpose'' ''TEXT'' False True False NoDefault None,
     Col ''expires_at'' ''DATETIME'' False False False NoDefault None,
     Col ''created_at'' ''DATETIME'' False False False CurrentTimestamp None]"

definition columns_for_table :: "db \<Rightarrow> string \<Rightarrow> string list" where
  "columns_for_table d n = (case tbl d n of None \<Rightarrow> [] | Some t \<Rightarrow> map c_name (t_cols t))"

definition ensure_table :: "db \<Rightarrow> string \<Rightarrow> coldef list \<Rightarrow> db" where
  "ensure_table d n cs = create_table_if_not_exists d n cs"

definition add_column_if_missing :: "db \<Rightarrow> string \<Rightarrow> coldef \<Rightarrow> db \<times> (error + bool)" where
  "add_column_if_missing d n c =
     (let col_name = c_name c; existing = columns_for_table d n
      in if col_name \<notin> set existing
         then (case alter_add_column d n c of
                 Inl e \<Rightarrow> (d, Inl e)
               | Inr d' \<Rightarrow> (d', Inr True))
         else (d, Inr False))"

text \<open>
  init_db: the five tables, then the two newer columns of applications inside one
  \<^verbatim>\<open>try\<close>: an OperationalError of the first ALTER skips the second, is printed and
  swallowed. (Creating the directory of the file is outside the database state.)
\<close>

definition init_db :: "db \<Rightarrow> db" where
  "init_db d0 =
     (let d1 = ensure_table d0 ''users'' users_cols;
          d2 = ensure_table d1 ''jobs'' jobs_cols;
          d3 = ensure_table d2 ''applications'' applications_cols;
          d4 = ensure_table d3 ''ratings'' ratings_cols;
          d5 = ensure_table d4 ''tokens'' tokens_cols
      in case add_column_if_missing d5 ''applications''
                (Col ''cover_letter_path'' ''TEXT'' False False False NoDefault None) of
           (d6, Inl e) \<Rightarrow> d6
         | (d6, Inr a) \<Rightarrow>
             (case add_column_if_missing d6 ''applications''
                     (Col ''resume_path'' ''TEXT'' False False False NoDefault None) of
                (d7, b) \<Rightarrow> d7))"

section \<open>Python values and the datetime library\<close>

text \<open>Truthiness of a value read from a row, as \<^verbatim>\<open>if expires_at:\<close> tests it.\<close>

fun truthy :: "val \<Rightarrow> bool" where
  "truthy VNull = False"
| "truthy (VInt i) = (i \<noteq> 0)"
| "truthy (VReal x) = (x \<noteq> Float 0)"
| "truthy (VText s) = (s \<noteq> [])"

definition opt_text :: "string option \<Rightarrow> val" where
  "opt_text a = (case a of None \<Rightarrow> VNull | Some s \<Rightarrow> VText s)"

text \<open>A float as SQLite stores it: NaN becomes NULL.\<close>

definition bind_float :: "pyfloat \<Rightarrow> val" where
  "bind_float x = (if x = NaN then VNull else VReal x)"

definition opt_float :: "pyfloat option \<Rightarrow> val" where
  "opt_float a = (case a of None \<Rightarrow> VNull | Some x \<Rightarrow> bind_float x)"

text \<open>
  A naive datetime is the number of microseconds since 0001-01-01T00:00:00, the least
  datetime; the greatest is 9999-12-31T23:59:59.999999. A datetime parsed from text may
  also carry a UTC offset (aware), and ordering an aware against a naive one raises
  TypeError. \<^verbatim>\<open>datetime.utcnow()\<close> is naive; its value is an argument of every
  accessor that reads the clock.

  The text format itself belongs to Python's library, not to models.py: \<open>isoformat\<close>
  and \<open>fromisoformat\<close> are parameters, collected in a \<open>dtlib\<close>.
\<close>

datatype pydatetime = Naive int | Aware int int

datatype dtlib = DtLib (isoformat: "int \<Rightarrow> string") (fromisoformat: "string \<Rightarrow> error + pydatetime")

definition datetime_max :: int where
  "datetime_max = 315537897599999999"

text \<open>\<^verbatim>\<open>now + timedelta(seconds=s)\<close>; a result outside the datetime range raises OverflowError.\<close>

definition add_seconds :: "int \<Rightarrow> int \<Rightarrow> error + int" where
  "add_seconds now s =
     (let r = now + s * 1000000
      in if 0 \<le> r \<and> r \<le> datetime_max then Inr r else Inl OverflowError)"

fun dt_less :: "pydatetime \<Rightarrow> pydatetime \<Rightarrow> error + bool" where
  "dt_less (Naive a) (Naive b) = Inr (a < b)"
| "dt_less (Aware a oa) (Aware b ob) = Inr (a - oa < b - ob)"
| "dt_less _ _ = Inl TypeError"

text \<open>\<^verbatim>\<open>datetime.fromisoformat(x)\<close> on a value read from a row: TypeError unless it is a string.\<close>

definition parse_datetime :: "dtlib \<Rightarrow> val \<Rightarrow> error + pydatetime" where
  "parse_datetime L v = (case v of VText s \<Rightarrow> fromisoformat L s | _ \<Rightarrow> Inl TypeError)"

section \<open>Users\<close>

definition user_fields :: "string list" where
  "user_fields = [''id'', ''email'', ''role'', ''is_banned'', ''banned_until'', ''created_at'',
                  ''username'', ''first_name'', ''last_name'', ''verified'']"

definition get_user_by_id :: "db \<Rightarrow> int \<Rightarrow> row option outcome" where
  "get_user_by_id d uid =
     (case exec_select d ''users'' user_fields (Some (Eq ''id'' (VInt uid))) of
        Inl e \<Rightarrow> (d, Inl e)
      | Inr rows \<Rightarrow> (d, Inr (fetchone rows)))"

text \<open>
  create_user; \<open>now\<close> is \<^verbatim>\<open>datetime.utcnow()\<close> and \<open>ts\<close> the engine's CURRENT_TIMESTAMP
  (which the statement never needs for the columns init_db declares).
\<close>

definition create_user ::
  "dtlib \<Rightarrow> db \<Rightarrow> string \<Rightarrow> string \<Rightarrow> string \<Rightarrow> string option \<Rightarrow> string option \<Rightarrow> string option
     \<Rightarrow> int \<Rightarrow> int \<Rightarrow> string \<Rightarrow> row option outcome" where
  "create_user L d email password_hash role username first_name last_name verified now ts =
     (case exec_insert d ''users''
             [(''email'', VText email), (''password_hash'', VText password_hash),
              (''role'', VText role), (''username'', opt_text username),
              (''first_name'', opt_text first_name), (''last_name'', opt_text last_name),
              (''verified'', VInt verified), (''created_at'', VText (isoformat L now))] ts of
        Inl e \<Rightarrow> (d, Inl e)
      | Inr (d', user_id) \<Rightarrow> get_user_by_id d' user_id)"

definition set_user_verified :: "db \<Rightarrow> string \<Rightarrow> bool outcome" where
  "set_user_verified d email =
     (case exec_update d ''users'' [(''verified'', VInt 1)] (Eq ''email'' (VText email)) of
        Inl e \<Rightarrow> (d, Inl e)
      | Inr (d', updated) \<Rightarrow> (d', Inr (updated > 0)))"

definition update_user_password :: "db \<Rightarrow> string \<Rightarrow> string \<Rightarrow> bool outcome" where
  "update_user_password d email password_hash =
     (case exec_update d ''users'' [(''password_hash'', VText password_hash)]
             (Eq ''email'' (VText email)) of
        Inl e \<Rightarrow> (d, Inl e)
      | Inr (d', updated) \<Rightarrow> (d', Inr (updated > 0)))"

definition set_user_ban :: "db \<Rightarrow> int \<Rightarrow> string option \<Rightarrow> bool outcome" where
  "set_user_ban d user_id banned_until_iso =
     (case (if truthy (opt_text banned_until_iso)
            then exec_update d ''users''
                   [(''is_banned'', VInt 1), (''banned_until'', opt_text banned_until_iso)]
                   (Eq ''id'' (VInt user_id))
            else exec_update d ''users''
                   [(''is_banned'', VInt 1), (''banned_until'', VNull)]
                   (Eq ''id'' (VInt user_id))) of
        Inl e \<Rightarrow> (d, Inl e)
      | Inr (d', n) \<Rightarrow> (d', Inr True))"

definition unset_user_ban :: "db \<Rightarrow> int \<Rightarrow> bool outcome" where
  "unset_user_ban d user_id =
     (case exec_update d ''users'' [(''is_banned'', VInt 0), (''banned_until'', VNull)]
             (Eq ''id'' (VInt user_id)) of
        Inl e \<Rightarrow> (d, Inl e)
      | Inr (d', n) \<Rightarrow> (d', Inr True))"

text \<open>The loop of delete_user over the ids of the user's jobs.\<close>

fun delete_user_jobs :: "db \<Rightarrow> val list \<Rightarrow> error + db" where
  "delete_user_jobs d [] = Inr d"
| "delete_user_jobs d (jid # job_ids) =
     (case exec_delete d ''applications'' (Eq ''job_id'' jid) of
        Inl e \<Rightarrow> Inl e
      | Inr (d1, n1) \<Rightarrow>
          (case exec_delete d1 ''ratings''
                  (And (Eq ''target_type'' (VText ''job'')) (Eq ''target_id'' jid)) of
             Inl e \<Rightarrow> Inl e
           | Inr (d2, n2) \<Rightarrow> delete_user_jobs d2 job_ids))"

definition delete_user_stmts :: "db \<Rightarrow> int \<Rightarrow> error + db" where
  "delete_user_stmts d user_id =
     (case exec_delete d ''applications'' (Eq ''user_id'' (VInt user_id)) of
        Inl e \<Rightarrow> Inl e
      | Inr (d1, n1) \<Rightarrow>
     (case exec_delete d1 ''ratings''
             (Or (Eq ''rater_id'' (VInt user_id))
                 (And (Eq ''target_type'' (VText ''user'')) (Eq ''target_id'' (VInt user_id)))) of
        Inl e \<Rightarrow> Inl e
      | Inr (d2, n2) \<Rightarrow>
     (case exec_select d2 ''jobs'' [''id''] (Some (Eq ''employer_id'' (VInt user_id))) of
        Inl e \<Rightarrow> Inl e
      | Inr rows \<Rightarrow>
     (case delete_user_jobs d2 (map (\<lambda>r. getv r ''id'') rows) of
        Inl e \<Rightarrow> Inl e
      | Inr d3 \<Rightarrow>
     (case exec_delete d3 ''jobs'' (Eq ''employer_id'' (VInt user_id)) of
        Inl e \<Rightarrow> Inl e
      | Inr (d4, n4) \<Rightarrow>
     (case exec_delete d4 ''users'' (Eq ''id'' (VInt user_id)) of
        Inl e \<Rightarrow> Inl e
      | Inr (d5, n5) \<Rightarrow> Inr d5))))))"

text \<open>delete_user commits once, after the last statement.\<close>

definition delete_user :: "db \<Rightarrow> int \<Rightarrow> bool outcome" where
  "delete_user d user_id =
     (case delete_user_stmts d user_id of
        Inl e \<Rightarrow> (d, Inl e)
      | Inr d' \<Rightarrow> (d', Inr True))"

section \<open>Tokens\<close>

text \<open>The tokens table as create_token declares it, should the table not exist yet.\<close>

definition tokens_cols_inline :: "coldef list" where
  "tokens_cols_inline =
    [Col ''id'' ''INTEGER'' True False False NoDefault None,
     Col ''token'' ''TEXT'' False True True NoDefault None,
     Col ''email'' ''TEXT'' False True False NoDefault None,
     Col ''purpose'' ''TEXT'' False True False NoDefault None,
     Col ''expires_at'' ''TEXT'' False True False NoDefault None,
     Col ''created_at'' ''DATETIME'' False False False CurrentTimestamp None]"

text \<open>
  create_token; \<open>tok\<close> is what \<^verbatim>\<open>secrets.token_hex(24)\<close> returns. The CREATE TABLE runs
  outside a transaction and stays when the INSERT raises.
\<close>

definition create_token ::
  "dtlib \<Rightarrow> db \<Rightarrow> string \<Rightarrow> string \<Rightarrow> int \<Rightarrow> string \<Rightarrow> int \<Rightarrow> string \<Rightarrow> string outcome" where
  "create_token L d email purpose expires_seconds tok now ts =
     (case add_seconds now expires_seconds of
        Inl e \<Rightarrow> (d, Inl e)
      | Inr expiry \<Rightarrow>
          (let expires_at = isoformat L expiry;
               d1 = create_table_if_not_exists d ''tokens'' tokens_cols_inline
           in case exec_insert d1 ''tokens''
                     [(''token'', VText tok), (''email'', VText email),
                      (''purpose'', VText purpose), (''expires_at'', VText expires_at)] ts of
                Inl e \<Rightarrow> (d1, Inl e)
              | Inr (d2, rid) \<Rightarrow> (d2, Inr tok)))"

text \<open>
  The body of the \<^verbatim>\<open>try\<close> of consume_token and get_token_info: whether the stored expiry
  has passed, or the exception that \<^verbatim>\<open>except Exception\<close> will catch.
\<close>

definition expiry_passed :: "dtlib \<Rightarrow> val \<Rightarrow> int \<Rightarrow> error + bool" where
  "expiry_passed L expires_at now =
     (if truthy expires_at
      then (case parse_datetime L expires_at of
              Inl e \<Rightarrow> Inl e
            | Inr exp_dt \<Rightarrow> dt_less exp_dt (Naive now))
      else Inr False)"

text \<open>DELETE FROM tokens WHERE token = ?, commit, and return \<open>res\<close>.\<close>

definition delete_token_then :: "db \<Rightarrow> string \<Rightarrow> val \<Rightarrow> val outcome" where
  "delete_token_then d token res =
     (case exec_delete d ''tokens'' (Eq ''token'' (VText token)) of
        Inl e \<Rightarrow> (d, Inl e)
      | Inr (d', n) \<Rightarrow> (d', Inr res))"

text \<open>consume_token returns the stored email, or None (\<open>VNull\<close>).\<close>

definition consume_token :: "dtlib \<Rightarrow> db \<Rightarrow> string \<Rightarrow> string \<Rightarrow> int \<Rightarrow> val outcome" where
  "consume_token L d token purpose now =
     (case exec_select d ''tokens'' [''email'', ''expires_at'']
             (Some (And (Eq ''token'' (VText token)) (Eq ''purpose'' (VText purpose)))) of
        Inl e \<Rightarrow> (d, Inl e)
      | Inr rows \<Rightarrow>
          (case fetchone rows of
             None \<Rightarrow> (d, Inr VNull)
           | Some row \<Rightarrow>
               (let email = getv row ''email''; expires_at = getv row ''expires_at''
                in case expiry_passed L expires_at now of
                     Inl e \<Rightarrow> delete_token_then d token VNull
                   | Inr True \<Rightarrow> delete_token_then d token VNull
                   | Inr False \<Rightarrow> delete_token_then d token email)))"

definition get_token_info :: "dtlib \<Rightarrow> db \<Rightarrow> string \<Rightarrow> string \<Rightarrow> int \<Rightarrow> row option outcome" where
  "get_token_info L d token purpose now =
     (case exec_select d ''tokens'' [''token'', ''email'', ''purpose'', ''expires_at'', ''created_at'']
             (Some (And (Eq ''token'' (VText token)) (Eq ''purpose'' (VText purpose)))) of
        Inl e \<Rightarrow> (d, Inl e)
      | Inr rows \<Rightarrow>
          (case fetchone rows of
             None \<Rightarrow> (d, Inr None)
           | Some row \<Rightarrow>
               (case expiry_passed L (getv row ''expires_at'') now of
                  Inl e \<Rightarrow> (d, Inr None)
                | Inr True \<Rightarrow> (d, Inr None)
                | Inr False \<Rightarrow> (d, Inr (Some row)))))"

section \<open>Jobs\<close>

definition job_fields :: "string list" where
  "job_fields = [''id'', ''employer_id'', ''title'', ''description'', ''location_text'',
                 ''lat'', ''lng'', ''salary'', ''tags'', ''created_at'']"

definition get_job_by_id :: "db \<Rightarrow> int \<Rightarrow> row option outcome" where
  "get_job_by_id d job_id =
     (case exec_select d ''jobs'' job_fields (Some (Eq ''id'' (VInt job_id))) of
        Inl e \<Rightarrow> (d, Inl e)
      | Inr rows \<Rightarrow> (d, Inr (fetchone rows)))"

definition create_job ::
  "dtlib \<Rightarrow> db \<Rightarrow> int \<Rightarrow> string \<Rightarrow> string \<Rightarrow> string option \<Rightarrow> pyfloat option \<Rightarrow> pyfloat option
     \<Rightarrow> string option \<Rightarrow> string option \<Rightarrow> int \<Rightarrow> string \<Rightarrow> row option outcome" where
  "create_job L d employer_id title description location_text lat lng salary tags now ts =
     (case exec_insert d ''jobs''
             [(''employer_id'', VInt employer_id), (''title'', VText title),
              (''description'', VText description), (''location_text'', opt_text location_text),
              (''lat'', opt_float lat), (''lng'', opt_float lng), (''salary'', opt_text salary),
              (''tags'', opt_text tags), (''created_at'', VText (isoformat L now))] ts of
        Inl e \<Rightarrow> (d, Inl e)
      | Inr (d', job_id) \<Rightarrow> get_job_by_id d' job_id)"

text \<open>One \<^verbatim>\<open>if x is not None: fields.append(..); params.append(x)\<close> of update_job.\<close>

definition set_if_given :: "string \<Rightarrow> val option \<Rightarrow> (string \<times> val) list \<Rightarrow> (string \<times> val) list" where
  "set_if_given c a fields = (case a of None \<Rightarrow> fields | Some v \<Rightarrow> fields @ [(c, v)])"

text \<open>The assignments (\<^verbatim>\<open>fields\<close> with \<^verbatim>\<open>params\<close>) that update_job collects, in its order.\<close>

definition job_update_fields ::
  "string option \<Rightarrow> string option \<Rightarrow> string option \<Rightarrow> pyfloat option \<Rightarrow> pyfloat option
     \<Rightarrow> string option \<Rightarrow> string option \<Rightarrow> (string \<times> val) list" where
  "job_update_fields title description location_text lat lng salary tags =
            set_if_given ''tags'' (map_option VText tags)
           (set_if_given ''salary'' (map_option VText salary)
           (set_if_given ''lng'' (map_option bind_float lng)
           (set_if_given ''lat'' (map_option bind_float lat)
           (set_if_given ''location_text'' (map_option VText location_text)
           (set_if_given ''description'' (map_option VText description)
           (set_if_given ''title'' (map_option VText title) []))))))"

definition update_job ::
  "db \<Rightarrow> int \<Rightarrow> string option \<Rightarrow> string option \<Rightarrow> string option \<Rightarrow> pyfloat option \<Rightarrow> pyfloat option
     \<Rightarrow> string option \<Rightarrow> string option \<Rightarrow> row option outcome" where
  "update_job d job_id title description location_text lat lng salary tags =
     (let fields = job_update_fields title description location_text lat lng salary tags
      in if fields = [] then get_job_by_id d job_id
         else (case exec_update d ''jobs'' fields (Eq ''id'' (VInt job_id)) of
                 Inl e \<Rightarrow> (d, Inl e)
               | Inr (d', n) \<Rightarrow> get_job_by_id d' job_id))"

definition delete_job_stmts :: "db \<Rightarrow> int \<Rightarrow> error + db" where
  "delete_job_stmts d job_id =
     (case exec_delete d ''applications'' (Eq ''job_id'' (VInt job_id)) of
        Inl e \<Rightarrow> Inl e
      | Inr (d1, n1) \<Rightarrow>
     (case exec_delete d1 ''ratings''
             (And (Eq ''target_type'' (VText ''job'')) (Eq ''target_id'' (VInt job_id))) of
        Inl e \<Rightarrow> Inl e
      | Inr (d2, n2) \<Rightarrow>
     (case exec_delete d2 ''jobs'' (Eq ''id'' (VInt job_id)) of
        Inl e \<Rightarrow> Inl e
      | Inr (d3, n3) \<Rightarrow> Inr d3)))"

definition delete_job :: "db \<Rightarrow> int \<Rightarrow> bool outcome" where
  "delete_job d job_id =
     (case delete_job_stmts d job_id of
        Inl e \<Rightarrow> (d, Inl e)
      | Inr d' \<Rightarrow> (d', Inr True))"

text \<open>
  ORDER BY c DESC in SQLite's order of storage classes (NULL, then numbers, then text
  byte by byte), as a stable insertion sort; LIMIT n, where a negative n is no limit.
\<close>

fun text_lt :: "string \<Rightarrow> string \<Rightarrow> bool" where
  "text_lt [] [] = False"
| "text_lt [] (y # ys) = True"
| "text_lt (x # xs) [] = False"
| "text_lt (x # xs) (y # ys) = ((of_char x :: nat) < of_char y \<or> (x = y \<and> text_lt xs ys))"

fun val_lt :: "val \<Rightarrow> val \<Rightarrow> bool" where
  "val_lt VNull v = (v \<noteq> VNull)"
| "val_lt v VNull = False"
| "val_lt (VInt i) (VInt j) = (i < j)"
| "val_lt (VInt i) (VReal y) = fl_lt (Float (of_int i)) y"
| "val_lt (VReal x) (VInt j) = fl_lt x (Float (of_int j))"
| "val_lt (VReal x) (VReal y) = fl_lt x y"
| "val_lt (VText s) (VText u) = text_lt s u"
| "val_lt (VText s) v = False"
| "val_lt v (VText u) = True"

fun ins_desc :: "string \<Rightarrow> row \<Rightarrow> row list \<Rightarrow> row list" where
  "ins_desc c r [] = [r]"
| "ins_desc c r (x # xs) =
     (if val_lt (getv r c) (getv x c) then x # ins_desc c r xs else r # x # xs)"

definition order_by_desc :: "string \<Rightarrow> row list \<Rightarrow> row list" where
  "order_by_desc c rows = foldr (ins_desc c) rows []"

definition sql_limit :: "int \<Rightarrow> row list \<Rightarrow> row list" where
  "sql_limit n rows = (if n < 0 then rows else take (nat n) rows)"

definition get_jobs :: "db \<Rightarrow> int option \<Rightarrow> row list outcome" where
  "get_jobs d limit =
     (case exec_select d ''jobs'' job_fields None of
        Inl e \<Rightarrow> (d, Inl e)
      | Inr rows \<Rightarrow>
          (case limit of
             None \<Rightarrow> (d, Inr (order_by_desc ''created_at'' rows))
           | Some n \<Rightarrow>
               if n \<noteq> 0
               then (if int64 n then (d, Inr (sql_limit n (order_by_desc ''created_at'' rows)))
                     else (d, Inl OverflowError))
               else (d, Inr (order_by_desc ''created_at'' rows))))"

section \<open>Ratings\<close>

definition create_rating ::
  "dtlib \<Rightarrow> db \<Rightarrow> string \<Rightarrow> int \<Rightarrow> int \<Rightarrow> int \<Rightarrow> string \<Rightarrow> int \<Rightarrow> string \<Rightarrow> row outcome" where
  "create_rating L d target_type target_id rater_id rating comment now ts =
     (case exec_insert d ''ratings''
             [(''target_type'', VText target_type), (''target_id'', VInt target_id),
              (''rater_id'', VInt rater_id), (''rating'', VInt rating),
              (''comment'', VText comment), (''created_at'', VText (isoformat L now))] ts of
        Inl e \<Rightarrow> (d, Inl e)
      | Inr (d', rid) \<Rightarrow>
          (d', Inr [(''id'', VInt rid), (''target_type'', VText target_type),
                    (''target_id'', VInt target_id), (''rater_id'', VInt rater_id),
                    (''rating'', VInt rating)]))"

section \<open>Notions used to state the properties\<close>

text \<open>
  A database on which init_db has nothing left to do. The five tables exist. If
  applications has a column spelled cover_letter_path, it also has resume_path in some
  spelling (so the second ALTER is either skipped or raises); otherwise it has
  cover_letter_path in another spelling (so the first ALTER raises and the second is
  never tried).
\<close>

definition settled :: "db \<Rightarrow> bool" where
  "settled d =
     (tbl d ''users'' \<noteq> None \<and> tbl d ''jobs'' \<noteq> None \<and> tbl d ''applications'' \<noteq> None
      \<and> tbl d ''ratings'' \<noteq> None \<and> tbl d ''tokens'' \<noteq> None
      \<and> (if ''cover_letter_path'' \<in> set (columns_for_table d ''applications'')
          then list_ex (\<lambda>n. same_name n ''resume_path'') (columns_for_table d ''applications'')
          else list_ex (\<lambda>n. same_name n ''cover_letter_path'')
                 (columns_for_table d ''applications'')))"

text \<open>The schema of a database: its tables in order, each with its column definitions.\<close>

definition schema_of :: "db \<Rightarrow> (string \<times> coldef list) list" where
  "schema_of d = map (\<lambda>p. (fst p, t_cols (snd p))) d"

text \<open>The rows of a table (none when the table does not exist).\<close>

definition rows_of :: "db \<Rightarrow> string \<Rightarrow> row list" where
  "rows_of d n = (case map_of d n of None \<Rightarrow> [] | Some t \<Rightarrow> t_rows t)"

text \<open>A table with only the rows that satisfy \<open>P\<close>, everything else as it was.\<close>

definition keep :: "(row \<Rightarrow> bool) \<Rightarrow> table \<Rightarrow> table" where
  "keep P t = Table (t_cols t) (filter P (t_rows t)) (t_seq t)"

text \<open>
  What delete_user is to remove for the user \<open>uid\<close>, read off the database before the
  call: the user's jobs, the applications made by the user or for one of those jobs,
  and the ratings written by the user, aimed at the user or aimed at one of those jobs.
  Ids are compared the way the engine compares them.
\<close>

definition jobs_of_user :: "db \<Rightarrow> int \<Rightarrow> row list" where
  "jobs_of_user d uid = filter (holds (Eq ''employer_id'' (VInt uid))) (rows_of d ''jobs'')"

definition application_of_user :: "db \<Rightarrow> int \<Rightarrow> row \<Rightarrow> bool" where
  "application_of_user d uid r =
     (holds (Eq ''user_id'' (VInt uid)) r
      \<or> list_ex (\<lambda>j. holds (Eq ''job_id'' (getv j ''id'')) r) (jobs_of_user d uid))"

definition rating_of_user :: "db \<Rightarrow> int \<Rightarrow> row \<Rightarrow> bool" where
  "rating_of_user d uid r =
     (holds (Eq ''rater_id'' (VInt uid)) r
      \<or> (holds (Eq ''target_type'' (VText ''user'')) r \<and> holds (Eq ''target_id'' (VInt uid)) r)
      \<or> list_ex (\<lambda>j. holds (Eq ''target_type'' (VText ''job'')) r
                      \<and> holds (Eq ''target_id'' (getv j ''id'')) r) (jobs_of_user d uid))"

text \<open>
  A stand-in for the datetime library, used to run the accessors on concrete inputs: a
  naive datetime is written as the letter T followed by its binary digits, lowest
  first.
\<close>

function demo_bits :: "int \<Rightarrow> string" where
  "demo_bits n = (if n \<le> 0 then []
                  else (if n mod 2 = 1 then CHR ''1'' else CHR ''0'') # demo_bits (n div 2))"
  by pat_completeness auto
termination
  by (relation "measure nat") auto

primrec demo_unbits :: "string \<Rightarrow> int" where
  "demo_unbits [] = 0"
| "demo_unbits (c # cs) = (if c = CHR ''1'' then 1 else 0) + 2 * demo_unbits cs"

definition demo_lib :: dtlib where
  "demo_lib = DtLib (\<lambda>i. CHR ''T'' # demo_bits i)
                    (\<lambda>s. case s of [] \<Rightarrow> Inl ValueError
                         | c # cs \<Rightarrow> if c = CHR ''T'' \<and> list_all (\<lambda>b. b = CHR ''0'' \<or> b = CHR ''1'') cs
                                     then Inr (Naive (demo_unbits cs))
                                     else Inl ValueError)"

text \<open>
  A small database with the tables of init_db: user 1 owns jobs 10 and 11, user 2
  owns job 12. Each job of user 1 has one application and one rating, user 1 is rated
  once, and user 1 has applied for job 12 and rated it; the remaining rows belong to
  user 2 alone.
\<close>

definition cascade_db :: db where
  "cascade_db =
    [(''users'', Table users_cols
        [[(''id'', VInt 1), (''email'', VText ''e@x''), (''password_hash'', VText ''h1''),
          (''role'', VText ''employer''), (''is_banned'', VInt 0), (''banned_until'', VNull),
          (''created_at'', VText ''t1'')],
         [(''id'', VInt 2), (''email'', VText ''c@x''), (''password_hash'', VText ''h2''),
          (''role'', VText ''candidate''), (''is_banned'', VInt 0), (''banned_until'', VNull),
          (''created_at'', VText ''t2'')]] 2),
     (''jobs'', Table jobs_cols
        [[(''id'', VInt 10), (''employer_id'', VInt 1), (''title'', VText ''a''),
          (''description'', VText ''da''), (''location_text'', VNull), (''lat'', VNull),
          (''lng'', VNull), (''salary'', VText []), (''tags'', VNull), (''created_at'', VText ''t3'')],
         [(''id'', VInt 11), (''employer_id'', VInt 1), (''title'', VText ''b''),
          (''description'', VText ''db''), (''location_text'', VNull), (''lat'', VNull),
          (''lng'', VNull), (''salary'', VText []), (''tags'', VNull), (''created_at'', VText ''t4'')],
         [(''id'', VInt 12), (''employer_id'', VInt 2), (''title'', VText ''c''),
          (''description'', VText ''dc''), (''location_text'', VNull), (''lat'', VNull),
          (''lng'', VNull), (''salary'', VText []), (''tags'', VNull), (''created_at'', VText ''t5'')]]
        12),
     (''applications'', Table applications_cols
        [[(''id'', VInt 1), (''job_id'', VInt 10), (''user_id'', VInt 2), (''cover_letter'', VText []),
          (''resume_text'', VText []), (''created_at'', VText ''t6'')],
         [(''id'', VInt 2), (''job_id'', VInt 11), (''user_id'', VInt 2), (''cover_letter'', VText []),
          (''resume_text'', VText []), (''created_at'', VText ''t7'')],
         [(''id'', VInt 3), (''job_id'', VInt 12), (''user_id'', VInt 1), (''cover_letter'', VText []),
          (''resume_text'', VText []), (''created_at'', VText ''t8'')],
         [(''id'', VInt 4), (''job_id'', VInt 12), (''user_id'', VInt 2), (''cover_letter'', VText []),
          (''resume_text'', VText []), (''created_at'', VText ''t9'')]] 4),
     (''ratings'', Table ratings_cols
        [[(''id'', VInt 1), (''target_type'', VText ''job''), (''target_id'', VInt 10),
          (''rater_id'', VInt 2), (''rating'', VInt 4), (''comment'', VText []),
          (''created_at'', VText ''t10'')],
         [(''id'', VInt 2), (''target_type'', VText ''job''), (''target_id'', VInt 11),
          (''rater_id'', VInt 2), (''rating'', VInt 5), (''comment'', VText []),
          (''created_at'', VText ''t11'')],
         [(''id'', VInt 3), (''target_type'', VText ''user''), (''target_id'', VInt 1),
          (''rater_id'', VInt 2), (''rating'', VInt 3), (''comment'', VText []),
          (''created_at'', VText ''t12'')],
         [(''id'', VInt 4), (''target_type'', VText ''job''), (''target_id'', VInt 12),
          (''rater_id'', VInt 1), (''rating'', VInt 2), (''comment'', VText []),
          (''created_at'', VText ''t13'')],
         [(''id'', VInt 5), (''target_type'', VText ''job''), (''target_id'', VInt 1),
          (''rater_id'', VInt 2), (''rating'', VInt 1), (''comment'', VText []),
          (''created_at'', VText ''t14'')],
         [(''id'', VInt 6), (''target_type'', VText ''user''), (''target_id'', VInt 10),
          (''rater_id'', VInt 2), (''rating'', VInt 1), (''comment'', VText []),
          (''created_at'', VText ''t15'')]] 6),
     (''tokens'', Table tokens_cols [] 0)]"

text \<open>The database after the five CREATE TABLE IF NOT EXISTS statements of init_db.\<close>

definition tables5 :: "db \<Rightarrow> db" where
  "tables5 d = ensure_table (ensure_table (ensure_table (ensure_table (ensure_table d
      ''users'' users_cols) ''jobs'' jobs_cols) ''applications'' applications_cols)
      ''ratings'' ratings_cols) ''tokens'' tokens_cols"

text \<open>
  The users table begins with the columns that init_db declares (columns added later
  come after them).
\<close>

definition users_declared :: "db \<Rightarrow> bool" where
  "users_declared d = (case map_of d ''users'' of None \<Rightarrow> False
     | Some t \<Rightarrow> take (length users_cols) (t_cols t) = users_cols)"

text \<open>The users table has a column verified that carries no CHECK, UNIQUE or key constraint.\<close>

definition verified_plain :: "db \<Rightarrow> bool" where
  "verified_plain d = (case map_of d ''users'' of None \<Rightarrow> False
     | Some t \<Rightarrow> (case find_col (t_cols t) ''verified'' of None \<Rightarrow> False
         | Some c \<Rightarrow> c_check c = None \<and> \<not> c_unique c \<and> \<not> c_pk c))"

text \<open>
  A users table on which every user accessor can run: the columns of init_db and the
  four further columns that the accessors name (no statement of models.py adds them),
  inside the small database above.
\<close>

definition users_cols_full :: "coldef list" where
  "users_cols_full = users_cols @
    [Col ''username'' ''TEXT'' False False False NoDefault None,
     Col ''first_name'' ''TEXT'' False False False NoDefault None,
     Col ''last_name'' ''TEXT'' False False False NoDefault None,
     Col ''verified'' ''INTEGER'' False False False (DefaultVal (VInt 0)) None]"

definition full_db :: db where
  "full_db = set_table cascade_db ''users'' (Table users_cols_full
      [[(''id'', VInt 1), (''email'', VText ''e@x''), (''password_hash'', VText ''h1''),
        (''role'', VText ''employer''), (''is_banned'', VInt 0), (''banned_until'', VNull),
        (''created_at'', VText ''t1''), (''username'', VText ''emp''), (''first_name'', VNull),
        (''last_name'', VNull), (''verified'', VInt 0)],
       [(''id'', VInt 2), (''email'', VText ''c@x''), (''password_hash'', VText ''h2''),
        (''role'', VText ''candidate''), (''is_banned'', VInt 0), (''banned_until'', VNull),
        (''created_at'', VText ''t2''), (''username'', VText ''cand''), (''first_name'', VNull),
        (''last_name'', VNull), (''verified'', VInt 1)]] 2)"

text \<open>A value is an integer of 64 bits, as every stored integer is.\<close>

fun is_int :: "val \<Rightarrow> bool" where
  "is_int (VInt i) = int64 i"
| "is_int v = False"


text \<open>The jobs table begins with the columns that init_db declares.\<close>

definition jobs_declared :: "db \<Rightarrow> bool" where
  "jobs_declared d = (case map_of d ''jobs'' of None \<Rightarrow> False
     | Some t \<Rightarrow> take (length jobs_cols) (t_cols t) = jobs_cols)"

text \<open>
  What a sparse update is to leave in column \<open>c\<close> of a job row \<open>r\<close>: the argument
  supplied for that column as SQLite stores it (NULL for a NaN), or the old content
  when the argument is None or the column is not one of the seven.
\<close>

definition updated_field ::
  "string option \<Rightarrow> string option \<Rightarrow> string option \<Rightarrow> pyfloat option \<Rightarrow> pyfloat option
     \<Rightarrow> string option \<Rightarrow> string option \<Rightarrow> row \<Rightarrow> string \<Rightarrow> val" where
  "updated_field title description location_text lat lng salary tags r c =
     (if c = ''tags'' then (case tags of None \<Rightarrow> getv r c | Some v \<Rightarrow> VText v)
      else if c = ''salary'' then (case salary of None \<Rightarrow> getv r c | Some v \<Rightarrow> VText v)
      else if c = ''lng'' then (case lng of None \<Rightarrow> getv r c | Some x \<Rightarrow> bind_float x)
      else if c = ''lat'' then (case lat of None \<Rightarrow> getv r c | Some x \<Rightarrow> bind_float x)
      else if c = ''location_text''
        then (case location_text of None \<Rightarrow> getv r c | Some v \<Rightarrow> VText v)
      else if c = ''description''
        then (case description of None \<Rightarrow> getv r c | Some v \<Rightarrow> VText v)
      else if c = ''title'' then (case title of None \<Rightarrow> getv r c | Some v \<Rightarrow> VText v)
      else getv r c)"

text \<open>A token row: a row that carries the given token for the given purpose.\<close>

definition token_row :: "string \<Rightarrow> string \<Rightarrow> row \<Rightarrow> bool" where
  "token_row token purpose r =
     (getv r ''token'' = VText token \<and> getv r ''purpose'' = VText purpose)"

text \<open>
  The naive timestamp that the stored expiry of a token row denotes, if it denotes
  one: a non-empty string that the library parses into a datetime without offset.
\<close>

definition stored_expiry :: "dtlib \<Rightarrow> row \<Rightarrow> int option" where
  "stored_expiry L r =
     (case getv r ''expires_at'' of
        VText s \<Rightarrow> (if s = [] then None
                    else (case fromisoformat L s of Inr (Naive e) \<Rightarrow> Some e | _ \<Rightarrow> None))
      | _ \<Rightarrow> None)"



text \<open>
  The database after init_db on a new file and one create_token with
  \<^verbatim>\<open>expires_seconds=-1\<close> at the instant 5000000 (five seconds into the first day).
\<close>

definition expired_db :: db where
  "expired_db = fst (create_token demo_lib (init_db []) ''a@b.com'' ''reset'' (- 1)
                       ''c0ffee'' 5000000 ''0001-01-01 00:00:05'')"


text \<open>
  The tables applications and ratings begin with the columns that init_db declares,
  and the id column of jobs holds integers of 64 bits (as an INTEGER PRIMARY KEY column
  always does).
\<close>

definition applications_declared :: "db \<Rightarrow> bool" where
  "applications_declared d = (case map_of d ''applications'' of None \<Rightarrow> False
     | Some t \<Rightarrow> take (length applications_cols) (t_cols t) = applications_cols)"

definition ratings_declared :: "db \<Rightarrow> bool" where
  "ratings_declared d = (case map_of d ''ratings'' of None \<Rightarrow> False
     | Some t \<Rightarrow> take (length ratings_cols) (t_cols t) = ratings_cols)"

definition job_ids_int :: "db \<Rightarrow> bool" where
  "job_ids_int d = list_all (\<lambda>r. is_int (getv r ''id'')) (rows_of d ''jobs'')"

text \<open>The database of init_db on a new file, after one rating has been stored.\<close>

definition rated_db :: db where
  "rated_db = fst (create_rating demo_lib (init_db []) ''job'' 1 2 5 ''fine'' 3000000
                     ''0001-01-01 00:00:03'')"

text \<open>
  A table in which the rows that satisfy the WHERE clause \<open>w\<close> have been rewritten by
  \<open>f\<close>; the other rows, the order, the columns and the counter are as they were.
\<close>

definition updated_rows :: "cond \<Rightarrow> (row \<Rightarrow> row) \<Rightarrow> table \<Rightarrow> table" where
  "updated_rows w f t =
     Table (t_cols t) (map (\<lambda>r. if holds w r then f r else r) (t_rows t)) (t_seq t)"



section \<open>Facts about the schema statements\<close>

lemma same_name_refl: "same_name a a"
  by (simp add: same_name_def)

lemma tbl_cong: "same_name n m \<Longrightarrow> tbl d n = tbl d m"
  by (induction d) (auto simp: same_name_def)

lemma tbl_append:
  "tbl (d @ [(n, t)]) m =
     (case tbl d m of Some u \<Rightarrow> Some u | None \<Rightarrow> if same_name n m then Some t else None)"
  by (induction d) auto

lemma tbl_set_tbl:
  "tbl (set_tbl d n t) m =
     (if same_name m n then (case tbl d n of None \<Rightarrow> None | Some u \<Rightarrow> Some t) else tbl d m)"
  by (induction d) (auto simp: same_name_def)

lemma tbl_ensure_table:
  "tbl (ensure_table d n cs) m =
     (case tbl d m of Some t \<Rightarrow> Some t
      | None \<Rightarrow> if same_name n m then Some (Table cs [] 0) else None)"
proof (cases "tbl d n")
  case None
  then show ?thesis
    by (simp add: ensure_table_def create_table_if_not_exists_def tbl_append)
next
  case (Some u)
  have "tbl d m = Some u" if "same_name n m"
    using tbl_cong [OF that, of d] Some by simp
  then show ?thesis
    using Some by (auto simp: ensure_table_def create_table_if_not_exists_def split: option.splits)
qed

lemma ensure_table_present: "tbl d n = Some t \<Longrightarrow> ensure_table d n cs = d"
  by (simp add: ensure_table_def create_table_if_not_exists_def)

lemma add_column_cases:
  assumes "tbl d n = Some t"
  shows "add_column_if_missing d n c =
     (if c_name c \<in> set (columns_for_table d n) then (d, Inr False)
      else if list_ex (\<lambda>m. same_name m (c_name c)) (columns_for_table d n)
      then (d, Inl OperationalError)
      else (set_tbl d n (Table (t_cols t @ [c]) (map (\<lambda>r. r @ [(c_name c, VNull)]) (t_rows t))
                           (t_seq t)), Inr True))"
  using assms
  by (simp add: add_column_if_missing_def alter_add_column_def columns_for_table_def
        has_col_named_def list_ex_iff)

lemma columns_set_tbl:
  "tbl d n = Some t \<Longrightarrow> columns_for_table (set_tbl d n t') n = map c_name (t_cols t')"
  by (simp add: columns_for_table_def tbl_set_tbl same_name_refl)

lemma paths_differ:
  "\<not> same_name ''cover_letter_path'' ''resume_path''"
  "\<not> same_name ''resume_path'' ''cover_letter_path''"
  "''cover_letter_path'' \<noteq> ''resume_path''"
  by code_simp+

lemma table_names_differ:
  "\<not> same_name ''users'' ''applications''" "\<not> same_name ''jobs'' ''applications''"
  "\<not> same_name ''ratings'' ''applications''" "\<not> same_name ''tokens'' ''applications''"
  "\<not> same_name ''users'' ''jobs''" "\<not> same_name ''users'' ''ratings''"
  "\<not> same_name ''users'' ''tokens''" "\<not> same_name ''jobs'' ''users''"
  "\<not> same_name ''applications'' ''users''" "\<not> same_name ''ratings'' ''users''"
  "\<not> same_name ''tokens'' ''users''"
  by code_simp+

lemma five_tables:
  "tbl (tables5 d) ''users'' \<noteq> None" "tbl (tables5 d) ''jobs'' \<noteq> None"
  "tbl (tables5 d) ''applications'' \<noteq> None" "tbl (tables5 d) ''ratings'' \<noteq> None"
  "tbl (tables5 d) ''tokens'' \<noteq> None"
  by (simp_all add: tables5_def tbl_ensure_table same_name_refl split: option.splits)

lemma tables5_fixed:
  assumes "tbl d ''users'' \<noteq> None" "tbl d ''jobs'' \<noteq> None" "tbl d ''applications'' \<noteq> None"
    "tbl d ''ratings'' \<noteq> None" "tbl d ''tokens'' \<noteq> None"
  shows "tables5 d = d"
  using assms by (auto simp: tables5_def ensure_table_present)

lemma init_db_unfold:
  "init_db d =
     (case add_column_if_missing (tables5 d) ''applications''
             (Col ''cover_letter_path'' ''TEXT'' False False False NoDefault None) of
        (d6, Inl e) \<Rightarrow> d6
      | (d6, Inr a) \<Rightarrow>
          (case add_column_if_missing d6 ''applications''
                  (Col ''resume_path'' ''TEXT'' False False False NoDefault None) of
             (d7, b) \<Rightarrow> d7))"
  by (simp add: init_db_def tables5_def)

lemma mem_same: "n \<in> set ns \<Longrightarrow> list_ex (\<lambda>m. same_name m n) ns"
  by (auto simp: list_ex_iff intro!: bexI [of _ n] same_name_refl)

lemma settled_fixed:
  assumes "settled d"
  shows "init_db d = d"
proof -
  let ?ns = "columns_for_table d ''applications''"
  from assms have five: "tbl d ''users'' \<noteq> None" "tbl d ''jobs'' \<noteq> None"
    "tbl d ''applications'' \<noteq> None" "tbl d ''ratings'' \<noteq> None" "tbl d ''tokens'' \<noteq> None"
    by (simp_all add: settled_def)
  then have t5: "tables5 d = d" by (rule tables5_fixed)
  from five(3) obtain t where t: "tbl d ''applications'' = Some t" by auto
  show ?thesis
  proof (cases "''cover_letter_path'' \<in> set ?ns")
    case True
    with assms have q2: "list_ex (\<lambda>n. same_name n ''resume_path'') ?ns"
      by (simp add: settled_def)
    show ?thesis
      using True q2 by (simp add: init_db_unfold t5 add_column_cases [OF t])
  next
    case False
    with assms have q1: "list_ex (\<lambda>n. same_name n ''cover_letter_path'') ?ns"
      by (simp add: settled_def)
    show ?thesis
      using False q1 by (simp add: init_db_unfold t5 add_column_cases [OF t])
  qed
qed

lemma settled_add:
  assumes "tbl d ''users'' \<noteq> None" "tbl d ''jobs'' \<noteq> None" "tbl d ''ratings'' \<noteq> None"
    "tbl d ''tokens'' \<noteq> None" "tbl d ''applications'' = Some t"
    and "if ''cover_letter_path'' \<in> set (map c_name (t_cols t'))
         then list_ex (\<lambda>n. same_name n ''resume_path'') (map c_name (t_cols t'))
         else list_ex (\<lambda>n. same_name n ''cover_letter_path'') (map c_name (t_cols t'))"
  shows "settled (set_tbl d ''applications'' t')"
  using assms
  by (simp add: settled_def tbl_set_tbl table_names_differ same_name_refl
        columns_set_tbl [OF assms(5)])

lemma settled_init_db: "settled (init_db d)"
proof -
  let ?c1 = "Col ''cover_letter_path'' ''TEXT'' False False False NoDefault None"
  let ?c2 = "Col ''resume_path'' ''TEXT'' False False False NoDefault None"
  define d5 where "d5 = tables5 d"
  have five: "tbl d5 ''users'' \<noteq> None" "tbl d5 ''jobs'' \<noteq> None"
    "tbl d5 ''applications'' \<noteq> None" "tbl d5 ''ratings'' \<noteq> None" "tbl d5 ''tokens'' \<noteq> None"
    unfolding d5_def by (rule five_tables)+
  then obtain t where t: "tbl d5 ''applications'' = Some t" by auto
  let ?ns = "columns_for_table d5 ''applications''"
  have ns: "?ns = map c_name (t_cols t)"
    by (simp add: columns_for_table_def t)
  let ?t2 = "Table (t_cols t @ [?c2]) (map (\<lambda>r. r @ [(''resume_path'', VNull)]) (t_rows t)) (t_seq t)"
  let ?t1 = "Table (t_cols t @ [?c1]) (map (\<lambda>r. r @ [(''cover_letter_path'', VNull)]) (t_rows t)) (t_seq t)"
  let ?d6 = "set_tbl d5 ''applications'' ?t1"
  let ?t12 = "Table (t_cols ?t1 @ [?c2]) (map (\<lambda>r. r @ [(''resume_path'', VNull)]) (t_rows ?t1)) (t_seq ?t1)"
  have s5: "settled d5"
    if "if ''cover_letter_path'' \<in> set ?ns
        then list_ex (\<lambda>n. same_name n ''resume_path'') ?ns
        else list_ex (\<lambda>n. same_name n ''cover_letter_path'') ?ns"
    using that five by (simp add: settled_def)
  have t6: "tbl ?d6 ''applications'' = Some ?t1"
    by (simp add: tbl_set_tbl same_name_refl t)
  have five6: "tbl ?d6 ''users'' \<noteq> None" "tbl ?d6 ''jobs'' \<noteq> None"
    "tbl ?d6 ''ratings'' \<noteq> None" "tbl ?d6 ''tokens'' \<noteq> None"
    using five by (simp_all add: tbl_set_tbl table_names_differ)
  have ns6: "columns_for_table ?d6 ''applications'' = ?ns @ [''cover_letter_path'']"
    by (simp add: columns_set_tbl [OF t] ns)
  have step1: "add_column_if_missing d5 ''applications'' ?c1 =
     (if ''cover_letter_path'' \<in> set ?ns then (d5, Inr False)
      else if list_ex (\<lambda>m. same_name m ''cover_letter_path'') ?ns then (d5, Inl OperationalError)
      else (?d6, Inr True))"
    using add_column_cases [OF t, of ?c1] by simp
  have step2: "add_column_if_missing d5 ''applications'' ?c2 =
     (if ''resume_path'' \<in> set ?ns then (d5, Inr False)
      else if list_ex (\<lambda>m. same_name m ''resume_path'') ?ns then (d5, Inl OperationalError)
      else (set_tbl d5 ''applications'' ?t2, Inr True))"
    using add_column_cases [OF t, of ?c2] by simp
  have step2': "add_column_if_missing ?d6 ''applications'' ?c2 =
     (if ''resume_path'' \<in> set ?ns then (?d6, Inr False)
      else if list_ex (\<lambda>m. same_name m ''resume_path'') ?ns then (?d6, Inl OperationalError)
      else (set_tbl ?d6 ''applications'' ?t12, Inr True))"
    using add_column_cases [OF t6, of ?c2] by (simp add: ns6 paths_differ)
  consider (A) "''cover_letter_path'' \<in> set ?ns"
    | (B) "''cover_letter_path'' \<notin> set ?ns" "list_ex (\<lambda>m. same_name m ''cover_letter_path'') ?ns"
    | (C) "''cover_letter_path'' \<notin> set ?ns" "\<not> list_ex (\<lambda>m. same_name m ''cover_letter_path'') ?ns"
    by blast
  then show ?thesis
  proof cases
    case A
    consider (A1) "list_ex (\<lambda>m. same_name m ''resume_path'') ?ns"
      | (A3) "''resume_path'' \<notin> set ?ns" "\<not> list_ex (\<lambda>m. same_name m ''resume_path'') ?ns"
      using mem_same [of "''resume_path''" ?ns] by blast
    then show ?thesis
    proof cases
      case A1
      have "init_db d = d5"
        using A A1 by (simp add: init_db_unfold d5_def [symmetric] step1 step2)
      moreover have "settled d5" using A A1 by (intro s5) simp
      ultimately show ?thesis by simp
    next
      case A3
      have "init_db d = set_tbl d5 ''applications'' ?t2"
        using A A3 by (simp add: init_db_unfold d5_def [symmetric] step1 step2)
      moreover have "settled (set_tbl d5 ''applications'' ?t2)"
        using A by (intro settled_add [OF five(1,2,4,5) t]) (simp add: ns same_name_refl)
      ultimately show ?thesis by simp
    qed
  next
    case B
    have "init_db d = d5"
      using B by (simp add: init_db_unfold d5_def [symmetric] step1)
    moreover have "settled d5" using B by (intro s5) simp
    ultimately show ?thesis by simp
  next
    case C
    consider (C1) "list_ex (\<lambda>m. same_name m ''resume_path'') ?ns"
      | (C3) "''resume_path'' \<notin> set ?ns" "\<not> list_ex (\<lambda>m. same_name m ''resume_path'') ?ns"
      using mem_same [of "''resume_path''" ?ns] by blast
    then show ?thesis
    proof cases
      case C1
      have "init_db d = ?d6"
        using C C1 by (simp add: init_db_unfold d5_def [symmetric] step1 step2')
      moreover have "settled ?d6"
        using C1 by (intro settled_add [OF five(1,2,4,5) t]) (simp add: ns same_name_refl)
      ultimately show ?thesis by simp
    next
      case C3
      have "init_db d = set_tbl ?d6 ''applications'' ?t12"
        using C C3 by (simp add: init_db_unfold d5_def [symmetric] step1 step2')
      moreover have "settled (set_tbl ?d6 ''applications'' ?t12)"
        by (intro settled_add [OF five6 t6]) (simp add: same_name_refl)
      ultimately show ?thesis by simp
    qed
  qed
qed

lemma tbl_cols_schema:
  "schema_of d' = schema_of d \<Longrightarrow> map_option t_cols (tbl d' n) = map_option t_cols (tbl d n)"
proof (induction d arbitrary: d')
  case Nil
  then show ?case by (simp add: schema_of_def)
next
  case (Cons p d)
  then obtain p' e where d': "d' = p' # e" "fst p' = fst p" "t_cols (snd p') = t_cols (snd p)"
    "schema_of e = schema_of d"
    by (cases d') (auto simp: schema_of_def)
  with Cons.IH [of e] show ?case by simp
qed

lemma settled_schema:
  assumes "schema_of d' = schema_of d"
  shows "settled d' = settled d"
proof -
  have e: "(tbl d' n \<noteq> None) = (tbl d n \<noteq> None)" for n
    using tbl_cols_schema [OF assms, of n] by (cases "tbl d' n"; cases "tbl d n") simp_all
  have c: "columns_for_table d' n = columns_for_table d n" for n
    using tbl_cols_schema [OF assms, of n]
    by (cases "tbl d' n"; cases "tbl d n") (simp_all add: columns_for_table_def)
  show ?thesis
    unfolding settled_def e c ..
qed

lemma tbl_None_map_of: "tbl d n = None \<Longrightarrow> map_of d n = None"
  by (induction d) (auto simp: same_name_refl split: if_splits)

lemma map_of_set_tbl: "\<not> same_name m n \<Longrightarrow> map_of (set_tbl d n t) m = map_of d m"
  by (induction d) (auto simp: same_name_def)

lemma map_of_ensure_table:
  "map_of (ensure_table d n cs) m =
     (case map_of d m of Some t \<Rightarrow> Some t
      | None \<Rightarrow> if tbl d n = None \<and> m = n then Some (Table cs [] 0) else None)"
  by (auto simp: ensure_table_def create_table_if_not_exists_def map_add_def
           split: option.splits)

lemma add_column_other:
  "\<not> same_name m n \<Longrightarrow> map_of (fst (add_column_if_missing d n c)) m = map_of d m"
  by (auto simp: add_column_if_missing_def alter_add_column_def map_of_set_tbl
           split: option.splits)

lemma init_db_others:
  assumes "\<not> same_name m ''applications''"
  shows "map_of (init_db d) m = map_of (tables5 d) m"
proof -
  let ?c1 = "Col ''cover_letter_path'' ''TEXT'' False False False NoDefault None"
  let ?c2 = "Col ''resume_path'' ''TEXT'' False False False NoDefault None"
  let ?d6 = "fst (add_column_if_missing (tables5 d) ''applications'' ?c1)"
  have "init_db d = ?d6 \<or> init_db d = fst (add_column_if_missing ?d6 ''applications'' ?c2)"
    by (simp add: init_db_unfold split: prod.splits sum.splits)
  then show ?thesis
    using assms by (auto simp: add_column_other)
qed

lemma tbl_users_tables5:
  "tbl d ''users'' = None \<Longrightarrow> map_of (tables5 d) ''users'' = Some (Table users_cols [] 0)"
  by (simp add: tables5_def map_of_ensure_table tbl_ensure_table tbl_None_map_of)

lemma users_after_init_db:
  "tbl d ''users'' = None \<Longrightarrow> map_of (init_db d) ''users'' = Some (Table users_cols [] 0)"
  by (simp add: init_db_others table_names_differ tbl_users_tables5)
section \<open>Facts about the data statements\<close>

lemma map_of_set_table:
  "map_of (set_table d n t) m =
     (if m = n then (case map_of d n of None \<Rightarrow> None | Some u \<Rightarrow> Some t) else map_of d m)"
  by (induction d) auto

lemma find_col_None: "(find_col cs n = None) = (n \<notin> set (map c_name cs))"
  by (auto simp: find_col_def find_None_iff)

lemma holds_And: "holds (And a b) r = (holds a r \<and> holds b r)"
  unfolding holds_def by (cases "(eval_cond a r, eval_cond b r)" rule: and3.cases) auto

lemma holds_Or: "holds (Or a b) r = (holds a r \<or> holds b r)"
  unfolding holds_def by (cases "(eval_cond a r, eval_cond b r)" rule: or3.cases) auto

lemma holds_Eq_Text: "holds (Eq c (VText s)) r = (getv r c = VText s)"
  unfolding holds_def by (cases "getv r c") auto

lemma fl_eq_Float: "fl_eq y (Float x) = (y = Float x)" "fl_eq (Float x) y = (y = Float x)"
  by (cases y; auto simp: fl_eq_def)+

lemma holds_Eq_Int:
  "holds (Eq c (VInt i)) r = (getv r c = VInt i \<or> getv r c = VReal (Float (of_int i)))"
  unfolding holds_def by (cases "getv r c") (auto simp: fl_eq_Float)

lemma bindable_simps:
  "bindable VNull" "bindable (VText s)" "bindable (VReal x)" "bindable (VInt i) = int64 i"
  by (simp_all add: bindable_def)

lemma bindable_opt_text: "bindable (opt_text a)"
  by (cases a) (simp_all add: opt_text_def bindable_def)

lemma bindable_bind_float: "bindable (bind_float x)"
  by (simp add: bind_float_def bindable_def)

lemma keep_keep: "keep P (keep Q t) = keep (\<lambda>r. Q r \<and> P r) t"
  by (simp add: keep_def)

lemma exec_delete_ok:
  assumes "has_cols d n (cond_cols w)" and "list_all bindable (cond_vals w)"
  shows "\<exists>d' k. exec_delete d n w = Inr (d', k)
           \<and> map_of d' n = map_option (keep (\<lambda>r. \<not> holds w r)) (map_of d n)
           \<and> (\<forall>m. m \<noteq> n \<longrightarrow> map_of d' m = map_of d m)
           \<and> k = length (filter (holds w) (rows_of d n))"
  using assms
  by (auto simp: has_cols_def exec_delete_def known_cols_def keep_def rows_of_def
        map_of_set_table split: option.splits)

lemma exec_select_ok:
  assumes "has_cols d n (cs @ (case w of None \<Rightarrow> [] | Some c \<Rightarrow> cond_cols c))"
      and "list_all bindable (case w of None \<Rightarrow> [] | Some c \<Rightarrow> cond_vals c)"
  shows "exec_select d n cs w =
           Inr (map (\<lambda>r. map (\<lambda>c. (c, getv r c)) cs)
                  (filter (\<lambda>r. case w of None \<Rightarrow> True | Some c \<Rightarrow> holds c r) (rows_of d n)))"
  using assms
  by (auto simp: has_cols_def exec_select_def known_cols_def rows_of_def split: option.splits)

lemma exec_unbindable:
  assumes "has_cols d n (cond_cols w)" and "\<not> list_all bindable (cond_vals w)"
  shows "exec_delete d n w = Inl OverflowError"
    and "has_cols d n cs \<Longrightarrow> exec_select d n cs (Some w) = Inl OverflowError"
    and "has_cols d n (map fst sets) \<Longrightarrow> exec_update d n sets w = Inl OverflowError"
  using assms
  by (auto simp: has_cols_def exec_delete_def exec_select_def exec_update_def known_cols_def
        split: option.splits)

lemma has_cols_keep:
  "map_of d' n = map_option (keep P) (map_of d n) \<Longrightarrow> has_cols d' n cs = has_cols d n cs"
  by (auto simp: has_cols_def keep_def split: option.splits)

lemma has_cols_same:
  "map_of d' n = map_of d n \<Longrightarrow> has_cols d' n cs = has_cols d n cs"
  by (auto simp: has_cols_def)

lemma keep_all: "map_option (keep (\<lambda>r. True)) x = x"
  by (cases x) (simp_all add: keep_def)

lemma getv_single: "getv [(c, v)] c = v"
  by (simp add: getv_def)

lemma rows_of_keep:
  "map_of d' n = map_option (keep P) (map_of d n) \<Longrightarrow> rows_of d' n = filter P (rows_of d n)"
  by (cases "map_of d n") (simp_all add: rows_of_def keep_def)

lemma length_ins_desc: "length (ins_desc c r xs) = Suc (length xs)"
  by (induction xs) auto

lemma length_order_by_desc: "length (order_by_desc c rows) = length rows"
  by (induction rows) (auto simp: order_by_desc_def length_ins_desc)

lemma set_ins_desc: "set (ins_desc c r xs) = insert r (set xs)"
  by (induction xs) auto

lemma set_order_by_desc: "set (order_by_desc c rows) = set rows"
  by (induction rows) (auto simp: order_by_desc_def set_ins_desc)

lemma filter_nonempty_list_ex: "(filter P xs \<noteq> []) = list_ex P xs"
  by (simp add: list_ex_iff filter_empty_conv)

lemma length_filter_pos: "(0 < length (filter P xs)) = list_ex P xs"
  by (simp add: list_ex_iff filter_empty_conv)

lemma has_cols_subset:
  "has_cols d n cs \<Longrightarrow> set cs' \<subseteq> set cs \<Longrightarrow> has_cols d n cs'"
  by (auto simp: has_cols_def list_all_iff split: option.splits)



lemma getv_put: "getv (put c v r) c' = (if c' = c then v else getv r c')"
  by (induction r) (auto simp: getv_def)

lemma assign_Nil: "assign [] r = r"
  by (simp add: assign_def)

lemma assign_snoc: "assign (fs @ [(c, v)]) r = put c v (assign fs r)"
  by (simp add: assign_def)

lemma exec_update_ok:
  assumes "map_of d n = Some t" and "known_cols t (map fst sets @ cond_cols w)"
      and "list_all bindable (map snd sets @ cond_vals w)"
      and "\<not> list_ex (set_violates t w) sets"
  shows "exec_update d n sets w =
           Inr (set_table d n (Table (t_cols t)
                  (map (\<lambda>r. if holds w r then assign sets r else r) (t_rows t)) (t_seq t)),
                length (filter (holds w) (t_rows t)))"
  using assms by (simp add: exec_update_def)

lemma declared_cols:
  assumes "map_of d n = Some t" and "take (length cs) (t_cols t) = cs"
  shows "\<exists>extra. t_cols t = cs @ extra"
  using assms(2) append_take_drop_id [of "length cs" "t_cols t"] by metis

lemma find_col_append:
  "find_col cs c = Some k \<Longrightarrow> find_col (cs @ extra) c = Some k"
  by (induction cs) (auto simp: find_col_def)
section \<open>Facts about the token accessors\<close>

lemma holds_token_row:
  "holds (And (Eq ''token'' (VText token)) (Eq ''purpose'' (VText purpose))) r = token_row token purpose r"
  by (simp add: holds_And holds_Eq_Text token_row_def)

lemma delete_token_then_ok:
  assumes "has_cols d ''tokens'' [''token'']"
  shows "\<exists>d'. delete_token_then d token res = (d', Inr res)
          \<and> map_of d' ''tokens''
               = map_option (keep (\<lambda>r. getv r ''token'' \<noteq> VText token)) (map_of d ''tokens'')
          \<and> (\<forall>m. m \<noteq> ''tokens'' \<longrightarrow> map_of d' m = map_of d m)"
proof -
  have "has_cols d ''tokens'' (cond_cols (Eq ''token'' (VText token)))"
    "list_all bindable (cond_vals (Eq ''token'' (VText token)))"
    using assms by (simp_all add: bindable_simps)
  from exec_delete_ok [OF this] show ?thesis
    by (auto simp: delete_token_then_def holds_Eq_Text)
qed

lemma token_select_bindable:
  "list_all bindable (case Some (And (Eq ''token'' (VText token)) (Eq ''purpose'' (VText purpose))) of
        None \<Rightarrow> [] | Some c \<Rightarrow> cond_vals c)"
  by (simp add: bindable_simps)

lemma consume_token_cases:
  assumes "has_cols d ''tokens'' [''email'', ''expires_at'', ''token'', ''purpose'']"
  shows "consume_token L d token purpose now =
     (case filter (token_row token purpose) (rows_of d ''tokens'') of
        [] \<Rightarrow> (d, Inr VNull)
      | r # rs \<Rightarrow>
          (case expiry_passed L (getv r ''expires_at'') now of
             Inr False \<Rightarrow> delete_token_then d token (getv r ''email'')
           | _ \<Rightarrow> delete_token_then d token VNull))"
proof -
  have "has_cols d ''tokens'' ([''email'', ''expires_at''] @
     (case Some (And (Eq ''token'' (VText token)) (Eq ''purpose'' (VText purpose))) of
        None \<Rightarrow> [] | Some c \<Rightarrow> cond_cols c))"
    using assms by simp
  from exec_select_ok [OF this token_select_bindable] show ?thesis
    by (simp add: consume_token_def holds_token_row fetchone_def getv_def
          split: list.splits sum.splits bool.splits)
qed

lemma get_token_info_cases:
  assumes "has_cols d ''tokens'' [''token'', ''email'', ''purpose'', ''expires_at'', ''created_at'']"
  shows "get_token_info L d token purpose now =
     (case filter (token_row token purpose) (rows_of d ''tokens'') of
        [] \<Rightarrow> (d, Inr None)
      | r # rs \<Rightarrow>
          (case expiry_passed L (getv r ''expires_at'') now of
             Inr False \<Rightarrow> (d, Inr (Some (map (\<lambda>c. (c, getv r c))
                             [''token'', ''email'', ''purpose'', ''expires_at'', ''created_at''])))
           | _ \<Rightarrow> (d, Inr None)))"
proof -
  have "has_cols d ''tokens'' ([''token'', ''email'', ''purpose'', ''expires_at'', ''created_at''] @
     (case Some (And (Eq ''token'' (VText token)) (Eq ''purpose'' (VText purpose))) of
        None \<Rightarrow> [] | Some c \<Rightarrow> cond_cols c))"
    by (rule has_cols_subset [OF assms]) simp
  from exec_select_ok [OF this token_select_bindable] show ?thesis
    by (simp add: get_token_info_def holds_token_row fetchone_def getv_def
          split: list.splits sum.splits bool.splits)
qed

lemma expiry_passed_stored:
  "(expiry_passed L (getv r ''expires_at'') now = Inr b)
     = (if truthy (getv r ''expires_at'')
        then (\<exists>e. stored_expiry L r = Some e \<and> b = (e < now))
        else \<not> b)"
  by (cases "getv r ''expires_at''")
     (auto simp: expiry_passed_def stored_expiry_def parse_datetime_def
           split: sum.splits pydatetime.splits)

text \<open>After the rows with a token are deleted, no lookup of that token finds a row.\<close>

lemma token_gone:
  assumes "has_cols d' ''tokens'' [''email'', ''expires_at'', ''token'', ''purpose'']"
      and "filter (\<lambda>r. getv r ''token'' = VText token) (rows_of d' ''tokens'') = []"
  shows "consume_token L d' token p n = (d', Inr VNull)"
proof -
  have "filter (token_row token p) (rows_of d' ''tokens'') = []"
    using assms(2) by (auto simp: filter_empty_conv token_row_def)
  then show ?thesis
    by (simp add: consume_token_cases [OF assms(1)])
qed







section \<open>What delete_user does to each table\<close>

lemma delete_user_jobs_ok:
  assumes "has_cols d ''applications'' [''job_id'']"
      and "has_cols d ''ratings'' [''target_type'', ''target_id'']"
      and "list_all bindable jids"
  shows "\<exists>d'. delete_user_jobs d jids = Inr d'
          \<and> map_of d' ''applications'' = map_option
                   (keep (\<lambda>r. \<not> list_ex (\<lambda>j. holds (Eq ''job_id'' j) r) jids))
                   (map_of d ''applications'')
          \<and> map_of d' ''ratings'' = map_option
                   (keep (\<lambda>r. \<not> list_ex (\<lambda>j. holds (Eq ''target_type'' (VText ''job'')) r
                                              \<and> holds (Eq ''target_id'' j) r) jids))
                   (map_of d ''ratings'')
          \<and> (\<forall>m. m \<noteq> ''applications'' \<longrightarrow> m \<noteq> ''ratings'' \<longrightarrow> map_of d' m = map_of d m)"
  using assms
proof (induction jids arbitrary: d)
  case Nil
  show ?case by (simp add: keep_all)
next
  case (Cons jid jids)
  let ?w = "And (Eq ''target_type'' (VText ''job'')) (Eq ''target_id'' jid)"
  obtain d1 k1 where s1: "exec_delete d ''applications'' (Eq ''job_id'' jid) = Inr (d1, k1)"
    "map_of d1 ''applications'' =
        map_option (keep (\<lambda>r. \<not> holds (Eq ''job_id'' jid) r)) (map_of d ''applications'')"
    "\<forall>m. m \<noteq> ''applications'' \<longrightarrow> map_of d1 m = map_of d m"
    using exec_delete_ok [of d "''applications''" "Eq ''job_id'' jid"] Cons.prems(1,3) by auto
  have r1: "map_of d1 ''ratings'' = map_of d ''ratings''"
    using s1(3) by simp
  have h1: "has_cols d1 ''ratings'' [''target_type'', ''target_id'']"
    using Cons.prems(2) has_cols_same [OF r1] by simp
  obtain d2 k2 where s2: "exec_delete d1 ''ratings'' ?w = Inr (d2, k2)"
    "map_of d2 ''ratings'' = map_option (keep (\<lambda>r. \<not> holds ?w r)) (map_of d1 ''ratings'')"
    "\<forall>m. m \<noteq> ''ratings'' \<longrightarrow> map_of d2 m = map_of d1 m"
    using exec_delete_ok [of d1 "''ratings''" ?w] h1 Cons.prems(3)
    by (auto simp: bindable_simps)
  have a2: "map_of d2 ''applications'' =
      map_option (keep (\<lambda>r. \<not> holds (Eq ''job_id'' jid) r)) (map_of d ''applications'')"
    using s2(3) s1(2) by simp
  have r2: "map_of d2 ''ratings'' = map_option (keep (\<lambda>r. \<not> holds ?w r)) (map_of d ''ratings'')"
    using s2(2) r1 by simp
  have o2: "m \<noteq> ''applications'' \<Longrightarrow> m \<noteq> ''ratings'' \<Longrightarrow> map_of d2 m = map_of d m" for m
    using s2(3) s1(3) by simp
  have h2: "has_cols d2 ''applications'' [''job_id'']"
    "has_cols d2 ''ratings'' [''target_type'', ''target_id'']"
    using Cons.prems(1,2) has_cols_keep [OF a2] has_cols_keep [OF r2] by simp_all
  have b2: "list_all bindable jids"
    using Cons.prems(3) by simp
  obtain d' where s3: "delete_user_jobs d2 jids = Inr d'"
    "map_of d' ''applications'' = map_option
                   (keep (\<lambda>r. \<not> list_ex (\<lambda>j. holds (Eq ''job_id'' j) r) jids))
                   (map_of d2 ''applications'')"
    "map_of d' ''ratings'' = map_option
                   (keep (\<lambda>r. \<not> list_ex (\<lambda>j. holds (Eq ''target_type'' (VText ''job'')) r
                                              \<and> holds (Eq ''target_id'' j) r) jids))
                   (map_of d2 ''ratings'')"
    "\<forall>m. m \<noteq> ''applications'' \<longrightarrow> m \<noteq> ''ratings'' \<longrightarrow> map_of d' m = map_of d2 m"
    using Cons.IH [OF h2 b2] by blast
  have "delete_user_jobs d (jid # jids) = Inr d'"
    using s1(1) s2(1) s3(1) by simp
  moreover have "map_of d' ''applications'' = map_option
                   (keep (\<lambda>r. \<not> list_ex (\<lambda>j. holds (Eq ''job_id'' j) r) (jid # jids)))
                   (map_of d ''applications'')"
    by (simp add: s3(2) a2 option.map_comp comp_def keep_keep)
  moreover have "map_of d' ''ratings'' = map_option
                   (keep (\<lambda>r. \<not> list_ex (\<lambda>j. holds (Eq ''target_type'' (VText ''job'')) r
                                              \<and> holds (Eq ''target_id'' j) r) (jid # jids)))
                   (map_of d ''ratings'')"
    by (simp add: s3(3) r2 option.map_comp comp_def keep_keep holds_And)
  moreover have "\<forall>m. m \<noteq> ''applications'' \<longrightarrow> m \<noteq> ''ratings'' \<longrightarrow> map_of d' m = map_of d m"
    using s3(4) o2 by simp
  ultimately show ?case by blast
qed

lemma delete_user_effect:
  assumes "has_cols d ''applications'' [''user_id'', ''job_id'']"
      and "has_cols d ''ratings'' [''rater_id'', ''target_type'', ''target_id'']"
      and "has_cols d ''jobs'' [''id'', ''employer_id'']"
      and "has_cols d ''users'' [''id'']"
      and "job_ids_int d" and "int64 uid"
  shows "\<exists>d'. delete_user d uid = (d', Inr True)
     \<and> map_of d' ''applications''
         = map_option (keep (\<lambda>r. \<not> application_of_user d uid r)) (map_of d ''applications'')
     \<and> map_of d' ''ratings''
         = map_option (keep (\<lambda>r. \<not> rating_of_user d uid r)) (map_of d ''ratings'')
     \<and> map_of d' ''jobs''
         = map_option (keep (\<lambda>r. \<not> holds (Eq ''employer_id'' (VInt uid)) r)) (map_of d ''jobs'')
     \<and> map_of d' ''users''
         = map_option (keep (\<lambda>r. \<not> holds (Eq ''id'' (VInt uid)) r)) (map_of d ''users'')
     \<and> (\<forall>m. m \<noteq> ''applications'' \<and> m \<noteq> ''ratings'' \<and> m \<noteq> ''jobs'' \<and> m \<noteq> ''users''
            \<longrightarrow> map_of d' m = map_of d m)"
proof -
  let ?wr = "Or (Eq ''rater_id'' (VInt uid))
                (And (Eq ''target_type'' (VText ''user'')) (Eq ''target_id'' (VInt uid)))"
  define jids where "jids = map (\<lambda>r. getv r ''id'')
                 (map (\<lambda>r. map (\<lambda>c. (c, getv r c)) [''id'']) (jobs_of_user d uid))"
  have bu: "bindable (VInt uid)"
    using assms(6) by (simp add: bindable_simps)
  have bj: "list_all bindable jids"
    using assms(5)
    by (auto simp: jids_def job_ids_int_def jobs_of_user_def list_all_iff getv_single
          bindable_def split: val.splits)
  have ha: "has_cols d ''applications'' [''user_id'']" "has_cols d ''applications'' [''job_id'']"
    using assms(1) by (auto simp: has_cols_def split: option.splits)
  have hr: "has_cols d ''ratings'' (cond_cols ?wr)"
    "has_cols d ''ratings'' [''target_type'', ''target_id'']"
    using assms(2) by (auto simp: has_cols_def split: option.splits)
  have hj: "has_cols d ''jobs'' [''employer_id'']"
    using assms(3) by (auto simp: has_cols_def split: option.splits)
  obtain d1 k1 where s1:
    "exec_delete d ''applications'' (Eq ''user_id'' (VInt uid)) = Inr (d1, k1)"
    "map_of d1 ''applications'' =
       map_option (keep (\<lambda>r. \<not> holds (Eq ''user_id'' (VInt uid)) r)) (map_of d ''applications'')"
    "\<forall>m. m \<noteq> ''applications'' \<longrightarrow> map_of d1 m = map_of d m"
    using exec_delete_ok [of d "''applications''" "Eq ''user_id'' (VInt uid)"] ha(1) bu
    by auto
  have e1: "map_of d1 ''ratings'' = map_of d ''ratings''" "map_of d1 ''jobs'' = map_of d ''jobs''"
    "map_of d1 ''users'' = map_of d ''users''"
    using s1(3) by simp_all
  have h1: "has_cols d1 ''ratings'' (cond_cols ?wr)"
    using hr(1) has_cols_same [OF e1(1)] by simp
  obtain d2 k2 where s2:
    "exec_delete d1 ''ratings'' ?wr = Inr (d2, k2)"
    "map_of d2 ''ratings'' = map_option (keep (\<lambda>r. \<not> holds ?wr r)) (map_of d1 ''ratings'')"
    "\<forall>m. m \<noteq> ''ratings'' \<longrightarrow> map_of d2 m = map_of d1 m"
    using exec_delete_ok [of d1 "''ratings''" ?wr] h1 bu by (auto simp: bindable_simps)
  have a2: "map_of d2 ''applications'' =
       map_option (keep (\<lambda>r. \<not> holds (Eq ''user_id'' (VInt uid)) r)) (map_of d ''applications'')"
    using s2(3) s1(2) by simp
  have r2: "map_of d2 ''ratings'' = map_option (keep (\<lambda>r. \<not> holds ?wr r)) (map_of d ''ratings'')"
    using s2(2) e1(1) by simp
  have j2: "map_of d2 ''jobs'' = map_of d ''jobs''" and u2: "map_of d2 ''users'' = map_of d ''users''"
    using s2(3) e1 by simp_all
  have o2: "m \<noteq> ''applications'' \<Longrightarrow> m \<noteq> ''ratings'' \<Longrightarrow> map_of d2 m = map_of d m" for m
    using s2(3) s1(3) by simp
  have hj2: "has_cols d2 ''jobs'' ([''id''] @ (case Some (Eq ''employer_id'' (VInt uid)) of
                 None \<Rightarrow> [] | Some c \<Rightarrow> cond_cols c))"
    using assms(3) has_cols_same [OF j2] by simp
  have rows2: "rows_of d2 ''jobs'' = rows_of d ''jobs''"
    by (simp add: rows_of_def j2)
  have s3: "exec_select d2 ''jobs'' [''id''] (Some (Eq ''employer_id'' (VInt uid)))
              = Inr (map (\<lambda>r. map (\<lambda>c. (c, getv r c)) [''id'']) (jobs_of_user d uid))"
    using exec_select_ok [OF hj2] bu by (simp add: rows2 jobs_of_user_def)
  have h2: "has_cols d2 ''applications'' [''job_id'']"
    "has_cols d2 ''ratings'' [''target_type'', ''target_id'']"
    using ha(2) hr(2) has_cols_keep [OF a2] has_cols_keep [OF r2] by simp_all
  obtain d3 where s4: "delete_user_jobs d2 jids = Inr d3"
    "map_of d3 ''applications'' = map_option
         (keep (\<lambda>r. \<not> list_ex (\<lambda>j. holds (Eq ''job_id'' j) r) jids)) (map_of d2 ''applications'')"
    "map_of d3 ''ratings'' = map_option
         (keep (\<lambda>r. \<not> list_ex (\<lambda>j. holds (Eq ''target_type'' (VText ''job'')) r
                                    \<and> holds (Eq ''target_id'' j) r) jids)) (map_of d2 ''ratings'')"
    "\<forall>m. m \<noteq> ''applications'' \<longrightarrow> m \<noteq> ''ratings'' \<longrightarrow> map_of d3 m = map_of d2 m"
    using delete_user_jobs_ok [OF h2 bj] by blast
  have j3: "map_of d3 ''jobs'' = map_of d ''jobs''" and u3: "map_of d3 ''users'' = map_of d ''users''"
    using s4(4) j2 u2 by simp_all
  have hj3: "has_cols d3 ''jobs'' (cond_cols (Eq ''employer_id'' (VInt uid)))"
    using hj has_cols_same [OF j3] by simp
  obtain d4 k4 where s5:
    "exec_delete d3 ''jobs'' (Eq ''employer_id'' (VInt uid)) = Inr (d4, k4)"
    "map_of d4 ''jobs'' = map_option (keep (\<lambda>r. \<not> holds (Eq ''employer_id'' (VInt uid)) r)) (map_of d3 ''jobs'')"
    "\<forall>m. m \<noteq> ''jobs'' \<longrightarrow> map_of d4 m = map_of d3 m"
    using exec_delete_ok [OF hj3] bu by auto
  have u4: "map_of d4 ''users'' = map_of d ''users''"
    using s5(3) u3 by simp
  have hu4: "has_cols d4 ''users'' (cond_cols (Eq ''id'' (VInt uid)))"
    using assms(4) has_cols_same [OF u4] by simp
  obtain d5 k5 where s6:
    "exec_delete d4 ''users'' (Eq ''id'' (VInt uid)) = Inr (d5, k5)"
    "map_of d5 ''users'' = map_option (keep (\<lambda>r. \<not> holds (Eq ''id'' (VInt uid)) r)) (map_of d4 ''users'')"
    "\<forall>m. m \<noteq> ''users'' \<longrightarrow> map_of d5 m = map_of d4 m"
    using exec_delete_ok [OF hu4] bu by auto
  have run: "delete_user d uid = (d5, Inr True)"
    using s4(1) unfolding jids_def
    by (simp add: delete_user_def delete_user_stmts_def s1(1) s2(1) s3 s5(1) s6(1))
  have ex1: "list_ex (\<lambda>j. holds (Eq ''job_id'' j) r) jids
       = list_ex (\<lambda>j. holds (Eq ''job_id'' (getv j ''id'')) r) (jobs_of_user d uid)" for r
    unfolding jids_def by (simp add: list_ex_iff getv_single)
  have ex2: "list_ex (\<lambda>j. holds (Eq ''target_type'' (VText ''job'')) r
                          \<and> holds (Eq ''target_id'' j) r) jids
       = list_ex (\<lambda>j. holds (Eq ''target_type'' (VText ''job'')) r
                          \<and> holds (Eq ''target_id'' (getv j ''id'')) r) (jobs_of_user d uid)" for r
    unfolding jids_def by (simp add: list_ex_iff getv_single)
  have A: "map_of d5 ''applications''
         = map_option (keep (\<lambda>r. \<not> application_of_user d uid r)) (map_of d ''applications'')"
    using s6(3) s5(3)
    by (simp add: s4(2) a2 option.map_comp comp_def keep_keep ex1 application_of_user_def)
  have R: "map_of d5 ''ratings''
         = map_option (keep (\<lambda>r. \<not> rating_of_user d uid r)) (map_of d ''ratings'')"
    using s6(3) s5(3)
    by (simp add: s4(3) r2 option.map_comp comp_def keep_keep ex2 rating_of_user_def
          holds_Or holds_And)
  have J: "map_of d5 ''jobs''
         = map_option (keep (\<lambda>r. \<not> holds (Eq ''employer_id'' (VInt uid)) r)) (map_of d ''jobs'')"
    using s6(3) by (simp add: s5(2) j3)
  have U: "map_of d5 ''users''
         = map_option (keep (\<lambda>r. \<not> holds (Eq ''id'' (VInt uid)) r)) (map_of d ''users'')"
    by (simp add: s6(2) u4)
  have O: "\<forall>m. m \<noteq> ''applications'' \<and> m \<noteq> ''ratings'' \<and> m \<noteq> ''jobs'' \<and> m \<noteq> ''users''
            \<longrightarrow> map_of d5 m = map_of d m"
    using s6(3) s5(3) s4(4) o2 by simp
  show ?thesis using run A R J U O by blast
qed

lemma declared_has_cols:
  assumes "map_of d n = Some t" and "take (length cs) (t_cols t) = cs"
      and "list_all (\<lambda>c. find_col cs c \<noteq> None) ns"
  shows "has_cols d n ns"
proof -
  from declared_cols [OF assms(1,2)] obtain extra where e: "t_cols t = cs @ extra" ..
  have "find_col (cs @ extra) c \<noteq> None" if "find_col cs c \<noteq> None" for c
    using that find_col_append [of cs c _ extra] by auto
  then show ?thesis
    using assms(1,3) by (simp add: has_cols_def e list_all_iff)
qed

lemma declared_tables_cols:
  shows "applications_declared d \<Longrightarrow> has_cols d ''applications'' [''user_id'', ''job_id'']"
    and "ratings_declared d \<Longrightarrow> has_cols d ''ratings'' [''rater_id'', ''target_type'', ''target_id'']"
    and "jobs_declared d \<Longrightarrow> has_cols d ''jobs'' [''id'', ''employer_id'']"
    and "users_declared d \<Longrightarrow> has_cols d ''users'' [''id'']"
    and "users_declared d \<Longrightarrow> has_cols d ''users'' [''email'']"
    and "jobs_declared d \<Longrightarrow> has_cols d ''jobs'' job_fields"
proof -
  show "applications_declared d \<Longrightarrow> has_cols d ''applications'' [''user_id'', ''job_id'']"
    unfolding applications_declared_def
    by (cases "map_of d ''applications''")
       (auto intro!: declared_has_cols [where cs = applications_cols]
             simp: applications_cols_def find_col_def)
  show "ratings_declared d \<Longrightarrow> has_cols d ''ratings'' [''rater_id'', ''target_type'', ''target_id'']"
    unfolding ratings_declared_def
    by (cases "map_of d ''ratings''")
       (auto intro!: declared_has_cols [where cs = ratings_cols]
             simp: ratings_cols_def find_col_def)
  show "jobs_declared d \<Longrightarrow> has_cols d ''jobs'' [''id'', ''employer_id'']"
    unfolding jobs_declared_def
    by (cases "map_of d ''jobs''")
       (auto intro!: declared_has_cols [where cs = jobs_cols]
             simp: jobs_cols_def find_col_def)
  show "users_declared d \<Longrightarrow> has_cols d ''users'' [''id'']"
    unfolding users_declared_def
    by (cases "map_of d ''users''")
       (auto intro!: declared_has_cols [where cs = users_cols]
             simp: users_cols_def find_col_def)
  show "users_declared d \<Longrightarrow> has_cols d ''users'' [''email'']"
    unfolding users_declared_def
    by (cases "map_of d ''users''")
       (auto intro!: declared_has_cols [where cs = users_cols]
             simp: users_cols_def find_col_def)
  show "jobs_declared d \<Longrightarrow> has_cols d ''jobs'' job_fields"
    unfolding jobs_declared_def
    by (cases "map_of d ''jobs''")
       (auto intro!: declared_has_cols [where cs = jobs_cols]
             simp: jobs_cols_def find_col_def job_fields_def)
qed

text \<open>An id beyond 64 bits cannot be bound to the first statement: nothing is deleted.\<close>

lemma delete_user_overflow:
  assumes "applications_declared d" and "\<not> int64 uid"
  shows "delete_user d uid = (d, Inl OverflowError)"
proof -
  have "has_cols d ''applications'' (cond_cols (Eq ''user_id'' (VInt uid)))"
    using declared_tables_cols(1) [OF assms(1)] by (rule has_cols_subset) simp
  moreover have "\<not> list_all bindable (cond_vals (Eq ''user_id'' (VInt uid)))"
    using assms(2) by (simp add: bindable_simps)
  ultimately have "exec_delete d ''applications'' (Eq ''user_id'' (VInt uid)) = Inl OverflowError"
    by (rule exec_unbindable(1))
  then show ?thesis
    by (simp add: delete_user_def delete_user_stmts_def)
qed

section \<open>Facts about new rowids\<close>



section \<open>Facts about update_job\<close>

lemma getv_assign_set_if_given:
  "getv (assign (set_if_given c a fs) r) c' =
     (if c' = c \<and> a \<noteq> None then the a else getv (assign fs r) c')"
  by (cases a) (simp_all add: set_if_given_def assign_snoc getv_put)

lemma set_if_given_Nil: "(set_if_given c a fs = []) = (a = None \<and> fs = [])"
  by (cases a) (simp_all add: set_if_given_def)

lemma set_if_given_all:
  "list_all P fs \<Longrightarrow> (\<And>x. P (c, g x)) \<Longrightarrow> list_all P (set_if_given c (map_option g a) fs)"
  by (cases a) (simp_all add: set_if_given_def)

lemma getv_job_update:
  "getv (assign (job_update_fields title description location_text lat lng salary tags) r) c
     = updated_field title description location_text lat lng salary tags r c"
  by (simp add: job_update_fields_def updated_field_def getv_assign_set_if_given assign_Nil
        split: option.splits)

lemma job_update_fields_Nil:
  "(job_update_fields title description location_text lat lng salary tags = []) =
     (title = None \<and> description = None \<and> location_text = None \<and> lat = None \<and> lng = None
      \<and> salary = None \<and> tags = None)"
  by (auto simp: job_update_fields_def set_if_given_Nil)

lemma jobs_declaredD:
  assumes "jobs_declared d"
  obtains t extra where "map_of d ''jobs'' = Some t" "t_cols t = jobs_cols @ extra"
proof -
  from assms obtain t where t: "map_of d ''jobs'' = Some t"
    "take (length jobs_cols) (t_cols t) = jobs_cols"
    by (auto simp: jobs_declared_def split: option.splits)
  have "t_cols t = jobs_cols @ drop (length jobs_cols) (t_cols t)"
    using t(2) append_take_drop_id [of "length jobs_cols" "t_cols t"] by simp
  with t(1) that show ?thesis by blast
qed

lemma jobs_cols_find:
  "find_col (jobs_cols @ extra) ''id'' = Some (Col ''id'' ''INTEGER'' True False False NoDefault None)"
  "find_col (jobs_cols @ extra) ''title'' = Some (Col ''title'' ''TEXT'' False True False NoDefault None)"
  "find_col (jobs_cols @ extra) ''description''
     = Some (Col ''description'' ''TEXT'' False True False NoDefault None)"
  "find_col (jobs_cols @ extra) ''location_text''
     = Some (Col ''location_text'' ''TEXT'' False False False NoDefault None)"
  "find_col (jobs_cols @ extra) ''lat'' = Some (Col ''lat'' ''REAL'' False False False NoDefault None)"
  "find_col (jobs_cols @ extra) ''lng'' = Some (Col ''lng'' ''REAL'' False False False NoDefault None)"
  "find_col (jobs_cols @ extra) ''salary'' = Some (Col ''salary'' ''TEXT'' False False False NoDefault None)"
  "find_col (jobs_cols @ extra) ''tags'' = Some (Col ''tags'' ''TEXT'' False False False NoDefault None)"
  by (simp_all add: find_col_def jobs_cols_def)

lemma job_update_fields_ok:
  assumes "t_cols t = jobs_cols @ extra"
  shows "list_all (\<lambda>cv. find_col (t_cols t) (fst cv) \<noteq> None \<and> \<not> set_violates t w cv
                        \<and> bindable (snd cv))
           (job_update_fields title description location_text lat lng salary tags)"
  unfolding job_update_fields_def
  by (intro set_if_given_all)
     (simp_all add: assms jobs_cols_find set_violates_def check_ok_def bindable_simps
        bindable_bind_float)

lemma holds_Eq_getv: "getv r' c = getv r c \<Longrightarrow> holds (Eq c v) r' = holds (Eq c v) r"
  by (simp add: holds_def)

lemma filter_map_same:
  assumes "\<And>r. P (g r) = P r"
  shows "filter P (map (\<lambda>r. if P r then g r else r) rows) = map g (filter P rows)"
  using assms by (induction rows) auto

lemma updated_field_id:
  "updated_field title description location_text lat lng salary tags r ''id'' = getv r ''id''"
  by (simp add: updated_field_def)

lemma updated_field_none:
  "updated_field None None None None None None None r c = getv r c"
  by (simp add: updated_field_def)

lemma get_job_by_id_ok:
  assumes "jobs_declared d" and "int64 job_id"
  shows "get_job_by_id d job_id =
           (d, Inr (case filter (holds (Eq ''id'' (VInt job_id))) (rows_of d ''jobs'') of
                      [] \<Rightarrow> None
                    | r # rs \<Rightarrow> Some (map (\<lambda>c. (c, getv r c)) job_fields)))"
proof -
  have "has_cols d ''jobs'' (job_fields @ [''id''])"
    by (rule has_cols_subset [OF declared_tables_cols(6) [OF assms(1)]])
       (simp add: job_fields_def)
  then have "exec_select d ''jobs'' job_fields (Some (Eq ''id'' (VInt job_id))) =
        Inr (map (\<lambda>r. map (\<lambda>c. (c, getv r c)) job_fields)
               (filter (holds (Eq ''id'' (VInt job_id))) (rows_of d ''jobs'')))"
    using exec_select_ok [of d "''jobs''" job_fields "Some (Eq ''id'' (VInt job_id))"] assms(2)
    by (simp add: bindable_simps)
  then show ?thesis
    by (simp add: get_job_by_id_def fetchone_def split: list.splits)
qed

text \<open>A job id beyond 64 bits cannot be bound: update_job raises and writes nothing.\<close>

lemma update_job_overflow:
  assumes "jobs_declared d" and "\<not> int64 job_id"
  shows "update_job d job_id title description location_text lat lng salary tags
           = (d, Inl OverflowError)"
proof -
  from assms(1) obtain t extra where t: "map_of d ''jobs'' = Some t" "t_cols t = jobs_cols @ extra"
    by (rule jobs_declaredD)
  let ?fs = "job_update_fields title description location_text lat lng salary tags"
  let ?w = "Eq ''id'' (VInt job_id)"
  have w: "has_cols d ''jobs'' (cond_cols ?w)" "\<not> list_all bindable (cond_vals ?w)"
    using assms(2) by (simp_all add: has_cols_def t jobs_cols_find bindable_simps)
  have j: "has_cols d ''jobs'' job_fields"
    by (rule declared_tables_cols(6) [OF assms(1)])
  have "list_all (\<lambda>cv. find_col (t_cols t) (fst cv) \<noteq> None \<and> \<not> set_violates t ?w cv
                        \<and> bindable (snd cv)) ?fs"
    by (rule job_update_fields_ok [OF t(2)])
  then have f: "has_cols d ''jobs'' (map fst ?fs)"
    by (simp add: has_cols_def t(1) list_all_iff)
  show ?thesis
    by (simp add: update_job_def Let_def get_job_by_id_def exec_unbindable(2) [OF w j]
          exec_unbindable(3) [OF w f])
qed
section \<open>Facts about the accessors that report a status\<close>

lemma users_declaredD:
  assumes "users_declared d"
  obtains t extra where "map_of d ''users'' = Some t" "t_cols t = users_cols @ extra"
proof -
  from assms obtain t where t: "map_of d ''users'' = Some t"
    "take (length users_cols) (t_cols t) = users_cols"
    by (auto simp: users_declared_def split: option.splits)
  have "t_cols t = users_cols @ drop (length users_cols) (t_cols t)"
    using t(2) append_take_drop_id [of "length users_cols" "t_cols t"] by simp
  with t(1) that show ?thesis by blast
qed

lemma getv_assign1: "getv (assign [(a, x)] r) c = (if c = a then x else getv r c)"
  by (simp add: assign_def getv_put)

lemma getv_assign2:
  "getv (assign [(a, x), (b, y)] r) c = (if c = b then y else if c = a then x else getv r c)"
  by (simp add: assign_def getv_put)

lemma exec_update_effect:
  assumes "map_of d n = Some t" and "known_cols t (map fst sets @ cond_cols w)"
      and "list_all bindable (map snd sets @ cond_vals w)"
      and "\<not> list_ex (set_violates t w) sets"
  shows "\<exists>d'. exec_update d n sets w = Inr (d', length (filter (holds w) (rows_of d n)))
           \<and> map_of d' n = map_option (updated_rows w (assign sets)) (map_of d n)
           \<and> (\<forall>m. m \<noteq> n \<longrightarrow> map_of d' m = map_of d m)"
  unfolding exec_update_ok [OF assms]
  by (simp add: map_of_set_table assms(1) rows_of_def updated_rows_def)

lemma users_cols_find:
  "find_col (users_cols @ extra) ''id'' = Some (Col ''id'' ''INTEGER'' True False False NoDefault None)"
  "find_col (users_cols @ extra) ''email'' = Some (Col ''email'' ''TEXT'' False True True NoDefault None)"
  "find_col (users_cols @ extra) ''is_banned''
     = Some (Col ''is_banned'' ''INTEGER'' False True False (DefaultVal (VInt 0)) None)"
  "find_col (users_cols @ extra) ''banned_until''
     = Some (Col ''banned_until'' ''TEXT'' False False False NoDefault None)"
  "find_col (users_cols @ extra) ''password_hash''
     = Some (Col ''password_hash'' ''TEXT'' False True False NoDefault None)"
  by (simp_all add: find_col_def users_cols_def)

lemma ban_update:
  assumes "users_declared d" and "int64 uid" and "int64 i" and "bindable v"
  shows "\<exists>d' k. exec_update d ''users'' [(''is_banned'', VInt i), (''banned_until'', v)]
                   (Eq ''id'' (VInt uid)) = Inr (d', k)
           \<and> map_of d' ''users''
                = map_option (updated_rows (Eq ''id'' (VInt uid))
                                (assign [(''is_banned'', VInt i), (''banned_until'', v)]))
                    (map_of d ''users'')
           \<and> (\<forall>m. m \<noteq> ''users'' \<longrightarrow> map_of d' m = map_of d m)"
proof -
  from assms(1) obtain t extra where t: "map_of d ''users'' = Some t" "t_cols t = users_cols @ extra"
    by (rule users_declaredD)
  have "\<exists>d'. exec_update d ''users'' [(''is_banned'', VInt i), (''banned_until'', v)]
                   (Eq ''id'' (VInt uid))
                = Inr (d', length (filter (holds (Eq ''id'' (VInt uid))) (rows_of d ''users'')))
           \<and> map_of d' ''users''
                = map_option (updated_rows (Eq ''id'' (VInt uid))
                                (assign [(''is_banned'', VInt i), (''banned_until'', v)]))
                    (map_of d ''users'')
           \<and> (\<forall>m. m \<noteq> ''users'' \<longrightarrow> map_of d' m = map_of d m)"
    using assms(2,3,4)
    by (intro exec_update_effect [OF t(1)])
       (simp_all add: known_cols_def t(2) users_cols_find set_violates_def check_ok_def
          bindable_simps)
  then show ?thesis by blast
qed

lemma email_update:
  assumes "users_declared d" and "map_of d ''users'' = Some t"
      and "find_col (t_cols t) c = Some k" and "\<not> (c_notnull k \<and> v = VNull)"
      and "check_ok (c_check k) v" and "\<not> c_unique k" and "\<not> c_pk k" and "bindable v"
  shows "\<exists>d'. exec_update d ''users'' [(c, v)] (Eq ''email'' (VText email))
                = Inr (d', length (filter (holds (Eq ''email'' (VText email))) (rows_of d ''users'')))
           \<and> map_of d' ''users''
                = map_option (updated_rows (Eq ''email'' (VText email)) (assign [(c, v)]))
                    (map_of d ''users'')
           \<and> (\<forall>m. m \<noteq> ''users'' \<longrightarrow> map_of d' m = map_of d m)"
proof -
  from assms(1,2) obtain extra where t: "t_cols t = users_cols @ extra"
    by (auto elim: users_declaredD)
  have e: "find_col (t_cols t) ''email'' \<noteq> None"
    by (simp add: t users_cols_find)
  show ?thesis
    using assms(3-) e
    by (intro exec_update_effect [OF assms(2)])
       (simp_all add: known_cols_def set_violates_def bindable_simps)
qed

lemma delete_job_effect:
  assumes "has_cols d ''applications'' [''job_id'']"
      and "has_cols d ''ratings'' [''target_type'', ''target_id'']"
      and "has_cols d ''jobs'' [''id'']"
      and "int64 jid"
  shows "\<exists>d'. delete_job d jid = (d', Inr True)
     \<and> map_of d' ''applications''
         = map_option (keep (\<lambda>r. \<not> holds (Eq ''job_id'' (VInt jid)) r)) (map_of d ''applications'')
     \<and> map_of d' ''ratings''
         = map_option (keep (\<lambda>r. \<not> (holds (Eq ''target_type'' (VText ''job'')) r
                                      \<and> holds (Eq ''target_id'' (VInt jid)) r)))
             (map_of d ''ratings'')
     \<and> map_of d' ''jobs''
         = map_option (keep (\<lambda>r. \<not> holds (Eq ''id'' (VInt jid)) r)) (map_of d ''jobs'')
     \<and> (\<forall>m. m \<noteq> ''applications'' \<and> m \<noteq> ''ratings'' \<and> m \<noteq> ''jobs''
            \<longrightarrow> map_of d' m = map_of d m)"
proof -
  let ?w = "And (Eq ''target_type'' (VText ''job'')) (Eq ''target_id'' (VInt jid))"
  have bj: "bindable (VInt jid)"
    using assms(4) by (simp add: bindable_simps)
  obtain d1 k1 where s1: "exec_delete d ''applications'' (Eq ''job_id'' (VInt jid)) = Inr (d1, k1)"
    "map_of d1 ''applications'' =
       map_option (keep (\<lambda>r. \<not> holds (Eq ''job_id'' (VInt jid)) r)) (map_of d ''applications'')"
    "\<forall>m. m \<noteq> ''applications'' \<longrightarrow> map_of d1 m = map_of d m"
    using exec_delete_ok [of d "''applications''" "Eq ''job_id'' (VInt jid)"] assms(1) bj by auto
  have e1: "map_of d1 ''ratings'' = map_of d ''ratings''" "map_of d1 ''jobs'' = map_of d ''jobs''"
    using s1(3) by simp_all
  have h1: "has_cols d1 ''ratings'' (cond_cols ?w)"
    using assms(2) has_cols_same [OF e1(1)] by simp
  obtain d2 k2 where s2: "exec_delete d1 ''ratings'' ?w = Inr (d2, k2)"
    "map_of d2 ''ratings'' = map_option (keep (\<lambda>r. \<not> holds ?w r)) (map_of d1 ''ratings'')"
    "\<forall>m. m \<noteq> ''ratings'' \<longrightarrow> map_of d2 m = map_of d1 m"
    using exec_delete_ok [OF h1] bj by (auto simp: bindable_simps)
  have e2: "map_of d2 ''jobs'' = map_of d ''jobs''"
    using s2(3) e1(2) by simp
  have h2: "has_cols d2 ''jobs'' (cond_cols (Eq ''id'' (VInt jid)))"
    using assms(3) has_cols_same [OF e2] by simp
  obtain d3 k3 where s3: "exec_delete d2 ''jobs'' (Eq ''id'' (VInt jid)) = Inr (d3, k3)"
    "map_of d3 ''jobs'' = map_option (keep (\<lambda>r. \<not> holds (Eq ''id'' (VInt jid)) r)) (map_of d2 ''jobs'')"
    "\<forall>m. m \<noteq> ''jobs'' \<longrightarrow> map_of d3 m = map_of d2 m"
    using exec_delete_ok [OF h2] bj by auto
  have run: "delete_job d jid = (d3, Inr True)"
    by (simp add: delete_job_def delete_job_stmts_def s1(1) s2(1) s3(1))
  have A: "map_of d3 ''applications''
         = map_option (keep (\<lambda>r. \<not> holds (Eq ''job_id'' (VInt jid)) r)) (map_of d ''applications'')"
    using s3(3) s2(3) s1(2) by simp
  have R: "map_of d3 ''ratings''
         = map_option (keep (\<lambda>r. \<not> (holds (Eq ''target_type'' (VText ''job'')) r
                                      \<and> holds (Eq ''target_id'' (VInt jid)) r)))
             (map_of d ''ratings'')"
    using s3(3) by (simp add: s2(2) e1(1) holds_And)
  have J: "map_of d3 ''jobs''
         = map_option (keep (\<lambda>r. \<not> holds (Eq ''id'' (VInt jid)) r)) (map_of d ''jobs'')"
    by (simp add: s3(2) e2)
  have O: "\<forall>m. m \<noteq> ''applications'' \<and> m \<noteq> ''ratings'' \<and> m \<noteq> ''jobs''
            \<longrightarrow> map_of d3 m = map_of d m"
    using s3(3) s2(3) s1(3) by simp
  show ?thesis using run A R J O by blast
qed

text \<open>
  The users table that init_db creates begins with the declared columns and has no
  column verified.
\<close>

lemma verified_missing_after_init_db:
  assumes "tbl d ''users'' = None"
  shows "users_declared (init_db d)" and "\<not> has_cols (init_db d) ''users'' [''verified'']"
  by (simp_all add: users_declared_def has_cols_def users_after_init_db [OF assms]
        find_col_def users_cols_def)

lemma no_column_update:
  assumes "\<not> has_cols d n (map fst sets)"
  shows "exec_update d n sets w = Inl OperationalError"
  using assms by (auto simp: has_cols_def exec_update_def known_cols_def split: option.splits)

section \<open>Properties of the accessors\<close>

text \<open>
  C8. init_db is idempotent: a second call on a database that init_db has already
  initialised changes nothing, neither the schema (the tables, their columns and their
  order) nor any row of any table. The first half is the second call right after the
  first; the second half is a later call, on any database d' whose tables and columns are
  those init_db left behind, whatever rows have been stored since.
\<close>

theorem init_db_idempotent:
  "init_db (init_db d) = init_db d
   \<and> (schema_of d' = schema_of (init_db d) \<longrightarrow> init_db d' = d')"
proof
  show "init_db (init_db d) = init_db d"
    by (rule settled_fixed [OF settled_init_db])
  show "schema_of d' = schema_of (init_db d) \<longrightarrow> init_db d' = d'"
  proof
    assume "schema_of d' = schema_of (init_db d)"
    then have "settled d'"
      using settled_schema [of d' "init_db d"] settled_init_db [of d] by simp
    then show "init_db d' = d'" by (rule settled_fixed)
  qed
qed

theorem init_db_idempotent_witness:
  "init_db (init_db []) = init_db []
   \<and> schema_of rated_db = schema_of (init_db [])
   \<and> length (rows_of rated_db ''ratings'') = 1
   \<and> init_db rated_db = rated_db"
proof -
  have s: "schema_of rated_db = schema_of (init_db [])" by code_simp
  have l: "length (rows_of rated_db ''ratings'') = 1" by code_simp
  from init_db_idempotent [of "[]" rated_db] s l show ?thesis by simp
qed

text \<open>
  C1 (the code departs from the claim). On a database that had no users table, under any
  spelling of the name, init_db
  creates users with the columns id, email, password_hash, role, is_banned,
  banned_until and created_at only. The INSERT of create_user names username,
  first_name, last_name and verified as well, so the statement cannot be prepared:
  create_user raises OperationalError whatever its arguments, nothing is stored, and
  get_user_by_id is never reached.
\<close>

theorem create_user_after_init_db:
  assumes "tbl d ''users'' = None"
  shows "create_user L (init_db d) email password_hash role username first_name last_name
           verified now ts = (init_db d, Inl OperationalError)"
proof -
  have "map_of (init_db d) ''users'' = Some (Table users_cols [] 0)"
    using assms by (rule users_after_init_db)
  then show ?thesis
    by (simp add: create_user_def exec_insert_def known_cols_def find_col_def users_cols_def)
qed

theorem create_user_after_init_db_witness:
  "tbl ([] :: db) ''users'' = None
   \<and> create_user demo_lib (init_db []) ''a@b.com'' ''h'' ''candidate'' None None None 0 5 ''ts''
       = (init_db [], Inl OperationalError)"
  using create_user_after_init_db [of "[]" demo_lib "''a@b.com''" "''h''" "''candidate''" None None None 0 5 "''ts''"]
  by simp

text \<open>
  C9. get_jobs with limit 0 is get_jobs with no limit, on every database: the LIMIT
  clause is added only for a truthy limit. When the jobs table has the selected
  columns, the result holds every job of the table exactly once.
\<close>

theorem get_jobs_limit_zero:
  "get_jobs d (Some 0) = get_jobs d None
   \<and> (has_cols d ''jobs'' job_fields \<longrightarrow>
        (\<exists>rows. get_jobs d (Some 0) = (d, Inr rows)
           \<and> length rows = length (rows_of d ''jobs'')
           \<and> set rows = set (map (\<lambda>r. map (\<lambda>c. (c, getv r c)) job_fields) (rows_of d ''jobs''))))"
proof -
  have a: "get_jobs d (Some 0) = get_jobs d None"
    by (simp add: get_jobs_def split: sum.splits)
  have b: "\<exists>rows. get_jobs d (Some 0) = (d, Inr rows)
           \<and> length rows = length (rows_of d ''jobs'')
           \<and> set rows = set (map (\<lambda>r. map (\<lambda>c. (c, getv r c)) job_fields) (rows_of d ''jobs''))"
    if h: "has_cols d ''jobs'' job_fields"
  proof -
    have "has_cols d ''jobs'' (job_fields @ (case None :: cond option of None \<Rightarrow> [] | Some c \<Rightarrow> cond_cols c))"
      using h by simp
    then have "exec_select d ''jobs'' job_fields None =
        Inr (map (\<lambda>r. map (\<lambda>c. (c, getv r c)) job_fields) (rows_of d ''jobs''))"
      using exec_select_ok [of d "''jobs''" job_fields None] by simp
    then show ?thesis
      by (simp add: get_jobs_def length_order_by_desc set_order_by_desc)
  qed
  show ?thesis using a b by blast
qed

theorem get_jobs_limit_zero_witness:
  "get_jobs cascade_db (Some 0) = get_jobs cascade_db None
   \<and> has_cols cascade_db ''jobs'' job_fields
   \<and> (\<exists>rows. get_jobs cascade_db (Some 0) = (cascade_db, Inr rows) \<and> length rows = 3)
   \<and> length (case snd (get_jobs cascade_db (Some 1)) of Inr rows \<Rightarrow> rows | Inl e \<Rightarrow> []) = 1"
proof -
  have h: "has_cols cascade_db ''jobs'' job_fields"
    by code_simp
  have l: "length (rows_of cascade_db ''jobs'') = 3"
    by code_simp
  have o: "length (case snd (get_jobs cascade_db (Some 1)) of Inr rows \<Rightarrow> rows | Inl e \<Rightarrow> []) = 1"
    by code_simp
  from get_jobs_limit_zero [of cascade_db] h l o show ?thesis by metis
qed
text \<open>
  C3. Let applications, ratings, jobs and users begin with the columns that init_db
  declares, the ids of the jobs be integers of 64 bits (as the INTEGER PRIMARY KEY makes
  them) and user_id fit 64 bits (any other user_id cannot be bound: OverflowError, and
  nothing is deleted). Then delete_user returns True and leaves: in applications,
  exactly the rows that are neither the user's nor for one of the user's jobs; in
  ratings, exactly the rows that are neither written by the user, nor aimed at the
  user, nor aimed at one of the user's jobs; in jobs, exactly the rows of other
  employers; in users, exactly the rows with another id. Rows that stay keep their
  order and content, columns and counters are untouched, and so is every other table.
  Hence no row that refers to the user or to one of the user's jobs is left.
\<close>

theorem delete_user_cascade:
  assumes "applications_declared d" and "ratings_declared d" and "jobs_declared d"
      and "users_declared d" and "job_ids_int d" and "int64 uid"
  shows "\<exists>d'. delete_user d uid = (d', Inr True)
     \<and> map_of d' ''applications''
         = map_option (keep (\<lambda>r. \<not> application_of_user d uid r)) (map_of d ''applications'')
     \<and> map_of d' ''ratings''
         = map_option (keep (\<lambda>r. \<not> rating_of_user d uid r)) (map_of d ''ratings'')
     \<and> map_of d' ''jobs''
         = map_option (keep (\<lambda>r. \<not> holds (Eq ''employer_id'' (VInt uid)) r)) (map_of d ''jobs'')
     \<and> map_of d' ''users''
         = map_option (keep (\<lambda>r. \<not> holds (Eq ''id'' (VInt uid)) r)) (map_of d ''users'')
     \<and> (\<forall>m. m \<noteq> ''applications'' \<and> m \<noteq> ''ratings'' \<and> m \<noteq> ''jobs'' \<and> m \<noteq> ''users''
            \<longrightarrow> map_of d' m = map_of d m)
     \<and> filter (application_of_user d uid) (rows_of d' ''applications'') = []
     \<and> filter (rating_of_user d uid) (rows_of d' ''ratings'') = []
     \<and> filter (holds (Eq ''employer_id'' (VInt uid))) (rows_of d' ''jobs'') = []
     \<and> filter (holds (Eq ''id'' (VInt uid))) (rows_of d' ''users'') = []"
proof -
  obtain d' where e: "delete_user d uid = (d', Inr True)"
    "map_of d' ''applications''
         = map_option (keep (\<lambda>r. \<not> application_of_user d uid r)) (map_of d ''applications'')"
    "map_of d' ''ratings''
         = map_option (keep (\<lambda>r. \<not> rating_of_user d uid r)) (map_of d ''ratings'')"
    "map_of d' ''jobs''
         = map_option (keep (\<lambda>r. \<not> holds (Eq ''employer_id'' (VInt uid)) r)) (map_of d ''jobs'')"
    "map_of d' ''users''
         = map_option (keep (\<lambda>r. \<not> holds (Eq ''id'' (VInt uid)) r)) (map_of d ''users'')"
    "\<forall>m. m \<noteq> ''applications'' \<and> m \<noteq> ''ratings'' \<and> m \<noteq> ''jobs'' \<and> m \<noteq> ''users''
            \<longrightarrow> map_of d' m = map_of d m"
    using delete_user_effect [OF declared_tables_cols(1) [OF assms(1)]
            declared_tables_cols(2) [OF assms(2)] declared_tables_cols(3) [OF assms(3)]
            declared_tables_cols(4) [OF assms(4)] assms(5,6)]
    by blast
  have "filter (application_of_user d uid) (rows_of d' ''applications'') = []"
    "filter (rating_of_user d uid) (rows_of d' ''ratings'') = []"
    "filter (holds (Eq ''employer_id'' (VInt uid))) (rows_of d' ''jobs'') = []"
    "filter (holds (Eq ''id'' (VInt uid))) (rows_of d' ''users'') = []"
    by (simp_all add: rows_of_keep [OF e(2)] rows_of_keep [OF e(3)] rows_of_keep [OF e(4)]
          rows_of_keep [OF e(5)] filter_empty_conv)
  with e show ?thesis by blast
qed

theorem delete_user_cascade_witness:
  "applications_declared cascade_db \<and> ratings_declared cascade_db \<and> jobs_declared cascade_db
   \<and> users_declared cascade_db \<and> job_ids_int cascade_db \<and> int64 1
   \<and> (\<exists>d'. delete_user cascade_db 1 = (d', Inr True)
        \<and> map (\<lambda>r. getv r ''id'') (rows_of d' ''applications'') = [VInt 4]
        \<and> map (\<lambda>r. getv r ''id'') (rows_of d' ''ratings'') = [VInt 5, VInt 6]
        \<and> map (\<lambda>r. getv r ''id'') (rows_of d' ''jobs'') = [VInt 12]
        \<and> map (\<lambda>r. getv r ''id'') (rows_of d' ''users'') = [VInt 2])"
proof -
  have h: "applications_declared cascade_db" "ratings_declared cascade_db"
    "jobs_declared cascade_db" "users_declared cascade_db" "job_ids_int cascade_db" "int64 1"
    by code_simp+
  obtain d' where e: "delete_user cascade_db 1 = (d', Inr True)"
    "map_of d' ''applications''
       = map_option (keep (\<lambda>r. \<not> application_of_user cascade_db 1 r)) (map_of cascade_db ''applications'')"
    "map_of d' ''ratings''
       = map_option (keep (\<lambda>r. \<not> rating_of_user cascade_db 1 r)) (map_of cascade_db ''ratings'')"
    "map_of d' ''jobs''
       = map_option (keep (\<lambda>r. \<not> holds (Eq ''employer_id'' (VInt 1)) r)) (map_of cascade_db ''jobs'')"
    "map_of d' ''users''
       = map_option (keep (\<lambda>r. \<not> holds (Eq ''id'' (VInt 1)) r)) (map_of cascade_db ''users'')"
    using delete_user_cascade [OF h] by blast
  have j: "jobs_of_user cascade_db 1 = take 2 (rows_of cascade_db ''jobs'')"
    by code_simp
  have r1: "map (\<lambda>r. getv r ''id'') (rows_of d' ''applications'') = [VInt 4]"
    unfolding rows_of_keep [OF e(2)] application_of_user_def j
    by code_simp
  have r2: "map (\<lambda>r. getv r ''id'') (rows_of d' ''ratings'') = [VInt 5, VInt 6]"
    unfolding rows_of_keep [OF e(3)] rating_of_user_def j
    by code_simp
  have r3: "map (\<lambda>r. getv r ''id'') (rows_of d' ''jobs'') = [VInt 12]"
    unfolding rows_of_keep [OF e(4)]
    by code_simp
  have r4: "map (\<lambda>r. getv r ''id'') (rows_of d' ''users'') = [VInt 2]"
    unfolding rows_of_keep [OF e(5)]
    by code_simp
  show ?thesis
    by (intro conjI exI [of _ d'] h e(1) r1 r2 r3 r4)
qed


text \<open>
  C4. Let the tokens table hold the token for the purpose, and let every row that
  does so store an expiry that denotes an instant before now. Then get_token_info
  returns None and leaves the database as it is, and consume_token returns None and
  deletes the rows with that token, leaving other rows and tables alone; consuming
  the token again, at any time and for any purpose, returns None. A token created
  with \<^verbatim>\<open>expires_seconds=-1\<close> is such a token from the instant of its creation.
\<close>

theorem expired_token_not_found:
  assumes "has_cols d ''tokens'' [''token'', ''email'', ''purpose'', ''expires_at'', ''created_at'']"
      and "list_ex (token_row token purpose) (rows_of d ''tokens'')"
      and "list_all (\<lambda>r. token_row token purpose r \<longrightarrow>
                         (case stored_expiry L r of Some e \<Rightarrow> e < now | None \<Rightarrow> False))
             (rows_of d ''tokens'')"
  shows "get_token_info L d token purpose now = (d, Inr None)
       \<and> (\<exists>d'. consume_token L d token purpose now = (d', Inr VNull)
            \<and> map_of d' ''tokens''
                 = map_option (keep (\<lambda>r. getv r ''token'' \<noteq> VText token)) (map_of d ''tokens'')
            \<and> (\<forall>m. m \<noteq> ''tokens'' \<longrightarrow> map_of d' m = map_of d m)
            \<and> (\<forall>p n. consume_token L d' token p n = (d', Inr VNull)))"
proof -
  have c4: "has_cols d ''tokens'' [''email'', ''expires_at'', ''token'', ''purpose'']"
    and c1: "has_cols d ''tokens'' [''token'']"
    by (rule has_cols_subset [OF assms(1)], simp)+
  from assms(2) obtain r rs where f: "filter (token_row token purpose) (rows_of d ''tokens'') = r # rs"
    by (cases "filter (token_row token purpose) (rows_of d ''tokens'')")
       (auto simp: list_ex_iff filter_empty_conv)
  then have "r \<in> set (filter (token_row token purpose) (rows_of d ''tokens''))"
    by simp
  then have r: "r \<in> set (rows_of d ''tokens'')" "token_row token purpose r"
    by auto
  with assms(3) obtain e where e: "stored_expiry L r = Some e" "e < now"
    by (auto simp: list_all_iff split: option.splits)
  have t: "truthy (getv r ''expires_at'')"
    using e(1) by (auto simp: stored_expiry_def split: val.splits if_splits)
  have p: "expiry_passed L (getv r ''expires_at'') now = Inr True"
    using t e by (simp add: expiry_passed_stored)
  have g: "get_token_info L d token purpose now = (d, Inr None)"
    by (simp add: get_token_info_cases [OF assms(1)] f p)
  have c: "consume_token L d token purpose now = delete_token_then d token VNull"
    by (simp add: consume_token_cases [OF c4] f p)
  obtain d' where d': "delete_token_then d token VNull = (d', Inr VNull)"
    "map_of d' ''tokens''
       = map_option (keep (\<lambda>r. getv r ''token'' \<noteq> VText token)) (map_of d ''tokens'')"
    "\<forall>m. m \<noteq> ''tokens'' \<longrightarrow> map_of d' m = map_of d m"
    using delete_token_then_ok [OF c1, of token VNull] by blast
  have h': "has_cols d' ''tokens'' [''email'', ''expires_at'', ''token'', ''purpose'']"
    using c4 has_cols_keep [OF d'(2)] by simp
  have "filter (\<lambda>r. getv r ''token'' = VText token) (rows_of d' ''tokens'') = []"
    by (simp add: rows_of_keep [OF d'(2)] filter_empty_conv)
  then have later: "\<forall>p n. consume_token L d' token p n = (d', Inr VNull)"
    using token_gone [OF h'] by blast
  show ?thesis
    using g c d' later by auto
qed

theorem expired_token_not_found_witness:
  "snd (create_token demo_lib (init_db []) ''a@b.com'' ''reset'' (- 1) ''c0ffee'' 5000000
          ''0001-01-01 00:00:05'') = Inr ''c0ffee''
   \<and> has_cols expired_db ''tokens'' [''token'', ''email'', ''purpose'', ''expires_at'', ''created_at'']
   \<and> list_ex (token_row ''c0ffee'' ''reset'') (rows_of expired_db ''tokens'')
   \<and> list_all (\<lambda>r. token_row ''c0ffee'' ''reset'' r \<longrightarrow>
                     (case stored_expiry demo_lib r of Some e \<Rightarrow> e < 5000000 | None \<Rightarrow> False))
         (rows_of expired_db ''tokens'')
   \<and> get_token_info demo_lib expired_db ''c0ffee'' ''reset'' 5000000 = (expired_db, Inr None)
   \<and> snd (consume_token demo_lib expired_db ''c0ffee'' ''reset'' 5000000) = Inr VNull
   \<and> rows_of (fst (consume_token demo_lib expired_db ''c0ffee'' ''reset'' 5000000)) ''tokens'' = []"
proof -
  have a: "snd (create_token demo_lib (init_db []) ''a@b.com'' ''reset'' (- 1) ''c0ffee'' 5000000
          ''0001-01-01 00:00:05'') = Inr ''c0ffee''"
    by code_simp
  have h: "has_cols expired_db ''tokens'' [''token'', ''email'', ''purpose'', ''expires_at'', ''created_at'']"
    "list_ex (token_row ''c0ffee'' ''reset'') (rows_of expired_db ''tokens'')"
    "list_all (\<lambda>r. token_row ''c0ffee'' ''reset'' r \<longrightarrow>
                     (case stored_expiry demo_lib r of Some e \<Rightarrow> e < 5000000 | None \<Rightarrow> False))
         (rows_of expired_db ''tokens'')"
    by code_simp+
  have e: "rows_of (fst (consume_token demo_lib expired_db ''c0ffee'' ''reset'' 5000000)) ''tokens'' = []"
    by code_simp
  from expired_token_not_found [OF h] obtain d' where
    g: "get_token_info demo_lib expired_db ''c0ffee'' ''reset'' 5000000 = (expired_db, Inr None)"
    and c: "consume_token demo_lib expired_db ''c0ffee'' ''reset'' 5000000 = (d', Inr VNull)"
    by blast
  have c': "snd (consume_token demo_lib expired_db ''c0ffee'' ''reset'' 5000000) = Inr VNull"
    using c by simp
  show ?thesis by (intro conjI a h g c' e)
qed


text \<open>
  C6. Let the jobs table begin with the columns of init_db and the job id fit 64 bits
  (any other id cannot be bound: OverflowError, nothing written). Then update_job
  rewrites the rows with the given id and no others; in such a row every column holds
  the argument supplied for it, as SQLite stores it, or its old content when the
  argument is None or the column is not among the seven. Columns, the counter, other
  rows and other tables are untouched. It returns the ten fields of the first row with
  that id, read after the update: the supplied arguments and the old content elsewhere;
  None when no row has the id. With no argument supplied the database is left exactly
  as it was and the row is returned as it is stored.
\<close>

theorem update_job_sparse:
  assumes "jobs_declared d" and "int64 job_id"
  shows "\<exists>d' f. update_job d job_id title description location_text lat lng salary tags
           = (d', Inr (case filter (holds (Eq ''id'' (VInt job_id))) (rows_of d ''jobs'') of
                         [] \<Rightarrow> None
                       | r # rs \<Rightarrow>
                           Some (map (\<lambda>c. (c, updated_field title description location_text
                                                 lat lng salary tags r c)) job_fields)))
      \<and> map_of d' ''jobs''
           = map_option (\<lambda>t. Table (t_cols t)
                 (map (\<lambda>r. if holds (Eq ''id'' (VInt job_id)) r then f r else r) (t_rows t))
                 (t_seq t)) (map_of d ''jobs'')
      \<and> (\<forall>r c. getv (f r) c
                  = updated_field title description location_text lat lng salary tags r c)
      \<and> (\<forall>m. m \<noteq> ''jobs'' \<longrightarrow> map_of d' m = map_of d m)
      \<and> (title = None \<and> description = None \<and> location_text = None \<and> lat = None \<and> lng = None
           \<and> salary = None \<and> tags = None \<longrightarrow> d' = d)"
proof -
  from assms(1) obtain t extra where t: "map_of d ''jobs'' = Some t" "t_cols t = jobs_cols @ extra"
    by (rule jobs_declaredD)
  let ?fs = "job_update_fields title description location_text lat lng salary tags"
  let ?f = "assign ?fs"
  let ?w = "Eq ''id'' (VInt job_id)"
  let ?u = "updated_field title description location_text lat lng salary tags"
  have f: "\<forall>r c. getv (?f r) c = ?u r c"
    by (simp add: getv_job_update)
  have same: "holds ?w (?f r) = holds ?w r" for r
    by (rule holds_Eq_getv) (simp add: getv_job_update updated_field_id)
  show ?thesis
  proof (cases "?fs = []")
    case True
    then have none: "title = None" "description = None" "location_text = None" "lat = None"
      "lng = None" "salary = None" "tags = None"
      by (simp_all add: job_update_fields_Nil)
    have "job_update_fields None None None None None None None = []"
      by (simp add: job_update_fields_Nil)
    then have "update_job d job_id None None None None None None None = get_job_by_id d job_id"
      by (simp add: update_job_def)
    then have run: "update_job d job_id title description location_text lat lng salary tags
           = (d, Inr (case filter (holds ?w) (rows_of d ''jobs'') of
                         [] \<Rightarrow> None
                       | r # rs \<Rightarrow> Some (map (\<lambda>c. (c, ?u r c)) job_fields)))"
      unfolding none updated_field_none by (simp add: get_job_by_id_ok [OF assms])
    have "map (\<lambda>r. if holds ?w r then ?f r else r) (t_rows t) = t_rows t"
      unfolding True assign_Nil by (induction "t_rows t") simp_all
    then have tab: "map_of d ''jobs''
           = map_option (\<lambda>t. Table (t_cols t)
                 (map (\<lambda>r. if holds ?w r then ?f r else r) (t_rows t)) (t_seq t)) (map_of d ''jobs'')"
      by (simp add: t(1))
    show ?thesis
      using run tab f by blast
  next
    case False
    have ok: "list_all (\<lambda>cv. find_col (t_cols t) (fst cv) \<noteq> None \<and> \<not> set_violates t ?w cv
                              \<and> bindable (snd cv)) ?fs"
      by (rule job_update_fields_ok [OF t(2)])
    have id: "find_col (t_cols t) ''id'' \<noteq> None"
      by (simp add: t(2) jobs_cols_find)
    have k: "known_cols t (map fst ?fs @ cond_cols ?w)"
      using ok id by (simp add: known_cols_def list_all_iff)
    have b: "list_all bindable (map snd ?fs @ cond_vals ?w)"
      using ok assms(2) by (simp add: list_all_iff bindable_simps)
    have v: "\<not> list_ex (set_violates t ?w) ?fs"
      using ok by (simp add: list_ex_iff list_all_iff)
    define d' where "d' = set_table d ''jobs'' (Table (t_cols t)
                  (map (\<lambda>r. if holds ?w r then ?f r else r) (t_rows t)) (t_seq t))"
    have upd: "exec_update d ''jobs'' ?fs ?w = Inr (d', length (filter (holds ?w) (t_rows t)))"
      unfolding d'_def by (rule exec_update_ok [OF t(1) k b v])
    have tab: "map_of d' ''jobs''
           = map_option (\<lambda>t. Table (t_cols t)
                 (map (\<lambda>r. if holds ?w r then ?f r else r) (t_rows t)) (t_seq t)) (map_of d ''jobs'')"
      by (simp add: d'_def map_of_set_table t(1))
    have oth: "\<forall>m. m \<noteq> ''jobs'' \<longrightarrow> map_of d' m = map_of d m"
      by (simp add: d'_def map_of_set_table)
    have decl: "jobs_declared d'"
      using t(2) by (simp add: jobs_declared_def tab t(1))
    have rows: "rows_of d' ''jobs''
           = map (\<lambda>r. if holds ?w r then ?f r else r) (rows_of d ''jobs'')"
      by (simp add: rows_of_def tab t(1))
    have sel: "filter (holds ?w) (rows_of d' ''jobs'') = map ?f (filter (holds ?w) (rows_of d ''jobs''))"
      unfolding rows by (rule filter_map_same) (rule same)
    have "update_job d job_id title description location_text lat lng salary tags
            = get_job_by_id d' job_id"
      using False upd by (simp add: update_job_def)
    then have run: "update_job d job_id title description location_text lat lng salary tags
           = (d', Inr (case filter (holds ?w) (rows_of d ''jobs'') of
                         [] \<Rightarrow> None
                       | r # rs \<Rightarrow> Some (map (\<lambda>c. (c, ?u r c)) job_fields)))"
      by (simp add: get_job_by_id_ok [OF decl assms(2)] sel getv_job_update split: list.splits)
    have none: "\<not> (title = None \<and> description = None \<and> location_text = None \<and> lat = None
                    \<and> lng = None \<and> salary = None \<and> tags = None)"
      using False by (simp add: job_update_fields_Nil)
    show ?thesis
      using run tab f oth none by blast
  qed
qed

theorem update_job_sparse_witness:
  "jobs_declared cascade_db \<and> int64 10
   \<and> update_job cascade_db 10 None None None None None None None
       = (cascade_db,
          Inr (Some [(''id'', VInt 10), (''employer_id'', VInt 1), (''title'', VText ''a''),
                     (''description'', VText ''da''), (''location_text'', VNull), (''lat'', VNull),
                     (''lng'', VNull), (''salary'', VText []), (''tags'', VNull),
                     (''created_at'', VText ''t3'')]))
   \<and> snd (update_job cascade_db 10 (Some ''New'') None None (Some NaN) (Some (Float 2)) None None)
       = Inr (Some [(''id'', VInt 10), (''employer_id'', VInt 1), (''title'', VText ''New''),
                    (''description'', VText ''da''), (''location_text'', VNull), (''lat'', VNull),
                    (''lng'', VReal (Float 2)), (''salary'', VText []), (''tags'', VNull),
                    (''created_at'', VText ''t3'')])
   \<and> map (\<lambda>r. getv r ''title'')
         (rows_of (fst (update_job cascade_db 10 (Some ''New'') None None (Some NaN)
                          (Some (Float 2)) None None)) ''jobs'')
       = [VText ''New'', VText ''b'', VText ''c'']"
proof -
  have h: "jobs_declared cascade_db" "int64 10" by code_simp+
  have r: "filter (holds (Eq ''id'' (VInt 10))) (rows_of cascade_db ''jobs'')
             = [hd (rows_of cascade_db ''jobs'')]"
    by code_simp
  have g: "map (\<lambda>c. (c, updated_field None None None None None None None
                          (hd (rows_of cascade_db ''jobs'')) c)) job_fields
      = [(''id'', VInt 10), (''employer_id'', VInt 1), (''title'', VText ''a''),
                     (''description'', VText ''da''), (''location_text'', VNull), (''lat'', VNull),
                     (''lng'', VNull), (''salary'', VText []), (''tags'', VNull),
                     (''created_at'', VText ''t3'')]"
    by code_simp
  have a: "update_job cascade_db 10 None None None None None None None
       = (cascade_db,
          Inr (Some [(''id'', VInt 10), (''employer_id'', VInt 1), (''title'', VText ''a''),
                     (''description'', VText ''da''), (''location_text'', VNull), (''lat'', VNull),
                     (''lng'', VNull), (''salary'', VText []), (''tags'', VNull),
                     (''created_at'', VText ''t3'')]))"
    using update_job_sparse [OF h, of None None None None None None None] by (auto simp: r g)
  have c: "snd (update_job cascade_db 10 (Some ''New'') None None (Some NaN) (Some (Float 2)) None None)
       = Inr (Some [(''id'', VInt 10), (''employer_id'', VInt 1), (''title'', VText ''New''),
                    (''description'', VText ''da''), (''location_text'', VNull), (''lat'', VNull),
                    (''lng'', VReal (Float 2)), (''salary'', VText []), (''tags'', VNull),
                    (''created_at'', VText ''t3'')])"
    by code_simp
  have e: "map (\<lambda>r. getv r ''title'')
         (rows_of (fst (update_job cascade_db 10 (Some ''New'') None None (Some NaN)
                          (Some (Float 2)) None None)) ''jobs'')
       = [VText ''New'', VText ''b'', VText ''c'']"
    by code_simp
  show ?thesis by (intro conjI h a c e)
qed

text \<open>
  C10 (the code departs from the claim for set_user_verified). Let users,
  applications, ratings and jobs begin with the columns of init_db, the job ids be
  integers of 64 bits and both ids fit 64 bits. Then, whether or not a row carries the
  id: set_user_ban and unset_user_ban return True and rewrite is_banned and
  banned_until in the user rows with that id, and nothing else; delete_user returns
  True and leaves the user rows with another id; delete_job returns True and deletes
  the job, its applications and the ratings aimed at it, and nothing else.
  update_user_password returns whether some user row has the email, and rewrites
  password_hash in the rows that have it. set_user_verified does the same with the
  column verified on a users table that has a plain column of that name; but on a users
  table without it, which is the table init_db creates, it raises OperationalError
  and returns nothing.
\<close>

theorem status_results:
  assumes "users_declared d" and "applications_declared d" and "ratings_declared d"
      and "jobs_declared d" and "job_ids_int d" and "int64 user_id" and "int64 job_id"
  shows "(\<exists>d' f. set_user_ban d user_id banned_until_iso = (d', Inr True)
            \<and> map_of d' ''users''
                 = map_option (updated_rows (Eq ''id'' (VInt user_id)) f) (map_of d ''users'')
            \<and> (\<forall>r c. getv (f r) c =
                  (if c = ''banned_until''
                   then (if truthy (opt_text banned_until_iso) then opt_text banned_until_iso
                         else VNull)
                   else if c = ''is_banned'' then VInt 1 else getv r c))
            \<and> (\<forall>m. m \<noteq> ''users'' \<longrightarrow> map_of d' m = map_of d m))
       \<and> (\<exists>d' f. unset_user_ban d user_id = (d', Inr True)
            \<and> map_of d' ''users''
                 = map_option (updated_rows (Eq ''id'' (VInt user_id)) f) (map_of d ''users'')
            \<and> (\<forall>r c. getv (f r) c =
                  (if c = ''banned_until'' then VNull
                   else if c = ''is_banned'' then VInt 0 else getv r c))
            \<and> (\<forall>m. m \<noteq> ''users'' \<longrightarrow> map_of d' m = map_of d m))
       \<and> (\<exists>d'. delete_user d user_id = (d', Inr True)
            \<and> map_of d' ''users''
                 = map_option (keep (\<lambda>r. \<not> holds (Eq ''id'' (VInt user_id)) r))
                     (map_of d ''users''))
       \<and> (\<exists>d'. delete_job d job_id = (d', Inr True)
            \<and> map_of d' ''applications''
                 = map_option (keep (\<lambda>r. \<not> holds (Eq ''job_id'' (VInt job_id)) r))
                     (map_of d ''applications'')
            \<and> map_of d' ''ratings''
                 = map_option (keep (\<lambda>r. \<not> (holds (Eq ''target_type'' (VText ''job'')) r
                                              \<and> holds (Eq ''target_id'' (VInt job_id)) r)))
                     (map_of d ''ratings'')
            \<and> map_of d' ''jobs''
                 = map_option (keep (\<lambda>r. \<not> holds (Eq ''id'' (VInt job_id)) r)) (map_of d ''jobs'')
            \<and> (\<forall>m. m \<noteq> ''applications'' \<and> m \<noteq> ''ratings'' \<and> m \<noteq> ''jobs''
                   \<longrightarrow> map_of d' m = map_of d m))
       \<and> (\<exists>d' f. update_user_password d email password_hash
                    = (d', Inr (list_ex (holds (Eq ''email'' (VText email))) (rows_of d ''users'')))
            \<and> map_of d' ''users''
                 = map_option (updated_rows (Eq ''email'' (VText email)) f) (map_of d ''users'')
            \<and> (\<forall>r c. getv (f r) c = (if c = ''password_hash'' then VText password_hash
                                        else getv r c))
            \<and> (\<forall>m. m \<noteq> ''users'' \<longrightarrow> map_of d' m = map_of d m))
       \<and> (verified_plain d \<longrightarrow>
            (\<exists>d' f. set_user_verified d email
                    = (d', Inr (list_ex (holds (Eq ''email'' (VText email))) (rows_of d ''users'')))
            \<and> map_of d' ''users''
                 = map_option (updated_rows (Eq ''email'' (VText email)) f) (map_of d ''users'')
            \<and> (\<forall>r c. getv (f r) c = (if c = ''verified'' then VInt 1 else getv r c))
            \<and> (\<forall>m. m \<noteq> ''users'' \<longrightarrow> map_of d' m = map_of d m)))
       \<and> (\<not> has_cols d ''users'' [''verified''] \<longrightarrow>
            set_user_verified d email = (d, Inl OperationalError))"
proof -
  from assms(1) obtain t extra where t: "map_of d ''users'' = Some t" "t_cols t = users_cols @ extra"
    by (rule users_declaredD)
  let ?wi = "Eq ''id'' (VInt user_id)"
  let ?we = "Eq ''email'' (VText email)"
  let ?until = "if truthy (opt_text banned_until_iso) then opt_text banned_until_iso else VNull"
  have b1: "int64 1" "int64 0"
    by (simp_all add: int64_def)
  have bu: "bindable ?until" "bindable VNull"
    by (simp_all add: bindable_opt_text bindable_simps)
  have ban: "\<exists>d' f. set_user_ban d user_id banned_until_iso = (d', Inr True)
            \<and> map_of d' ''users'' = map_option (updated_rows ?wi f) (map_of d ''users'')
            \<and> (\<forall>r c. getv (f r) c =
                  (if c = ''banned_until'' then ?until
                   else if c = ''is_banned'' then VInt 1 else getv r c))
            \<and> (\<forall>m. m \<noteq> ''users'' \<longrightarrow> map_of d' m = map_of d m)"
  proof -
    obtain d' k where u:
      "exec_update d ''users'' [(''is_banned'', VInt 1), (''banned_until'', ?until)] ?wi = Inr (d', k)"
      "map_of d' ''users''
         = map_option (updated_rows ?wi (assign [(''is_banned'', VInt 1), (''banned_until'', ?until)]))
             (map_of d ''users'')"
      "\<forall>m. m \<noteq> ''users'' \<longrightarrow> map_of d' m = map_of d m"
      using ban_update [OF assms(1,6) b1(1) bu(1)] by blast
    have "set_user_ban d user_id banned_until_iso = (d', Inr True)"
      using u(1) by (simp add: set_user_ban_def split: if_splits)
    moreover have "\<forall>r c. getv (assign [(''is_banned'', VInt 1), (''banned_until'', ?until)] r) c =
                  (if c = ''banned_until'' then ?until
                   else if c = ''is_banned'' then VInt 1 else getv r c)"
      by (simp add: getv_assign2)
    ultimately show ?thesis using u(2,3) by blast
  qed
  have unban: "\<exists>d' f. unset_user_ban d user_id = (d', Inr True)
            \<and> map_of d' ''users'' = map_option (updated_rows ?wi f) (map_of d ''users'')
            \<and> (\<forall>r c. getv (f r) c =
                  (if c = ''banned_until'' then VNull
                   else if c = ''is_banned'' then VInt 0 else getv r c))
            \<and> (\<forall>m. m \<noteq> ''users'' \<longrightarrow> map_of d' m = map_of d m)"
  proof -
    obtain d' k where u:
      "exec_update d ''users'' [(''is_banned'', VInt 0), (''banned_until'', VNull)] ?wi = Inr (d', k)"
      "map_of d' ''users''
         = map_option (updated_rows ?wi (assign [(''is_banned'', VInt 0), (''banned_until'', VNull)]))
             (map_of d ''users'')"
      "\<forall>m. m \<noteq> ''users'' \<longrightarrow> map_of d' m = map_of d m"
      using ban_update [OF assms(1,6) b1(2) bu(2)] by blast
    have "unset_user_ban d user_id = (d', Inr True)"
      using u(1) by (simp add: unset_user_ban_def)
    moreover have "\<forall>r c. getv (assign [(''is_banned'', VInt 0), (''banned_until'', VNull)] r) c =
                  (if c = ''banned_until'' then VNull
                   else if c = ''is_banned'' then VInt 0 else getv r c)"
      by (simp add: getv_assign2)
    ultimately show ?thesis using u(2,3) by blast
  qed
  have du: "\<exists>d'. delete_user d user_id = (d', Inr True)
            \<and> map_of d' ''users''
                 = map_option (keep (\<lambda>r. \<not> holds ?wi r)) (map_of d ''users'')"
    using delete_user_effect [OF declared_tables_cols(1) [OF assms(2)]
            declared_tables_cols(2) [OF assms(3)] declared_tables_cols(3) [OF assms(4)]
            declared_tables_cols(4) [OF assms(1)] assms(5,6)]
    by blast
  have ha: "has_cols d ''applications'' [''job_id'']"
    by (rule has_cols_subset [OF declared_tables_cols(1) [OF assms(2)]]) simp
  have hr: "has_cols d ''ratings'' [''target_type'', ''target_id'']"
    by (rule has_cols_subset [OF declared_tables_cols(2) [OF assms(3)]]) simp
  have hj: "has_cols d ''jobs'' [''id'']"
    by (rule has_cols_subset [OF declared_tables_cols(3) [OF assms(4)]]) simp
  note dj = delete_job_effect [OF ha hr hj assms(7)]
  have pw: "\<exists>d' f. update_user_password d email password_hash
                    = (d', Inr (list_ex (holds ?we) (rows_of d ''users'')))
            \<and> map_of d' ''users'' = map_option (updated_rows ?we f) (map_of d ''users'')
            \<and> (\<forall>r c. getv (f r) c = (if c = ''password_hash'' then VText password_hash
                                        else getv r c))
            \<and> (\<forall>m. m \<noteq> ''users'' \<longrightarrow> map_of d' m = map_of d m)"
  proof -
    have "find_col (t_cols t) ''password_hash''
            = Some (Col ''password_hash'' ''TEXT'' False True False NoDefault None)"
      by (simp add: t(2) users_cols_find)
    then obtain d' where u:
      "exec_update d ''users'' [(''password_hash'', VText password_hash)] ?we
         = Inr (d', length (filter (holds ?we) (rows_of d ''users'')))"
      "map_of d' ''users''
         = map_option (updated_rows ?we (assign [(''password_hash'', VText password_hash)]))
             (map_of d ''users'')"
      "\<forall>m. m \<noteq> ''users'' \<longrightarrow> map_of d' m = map_of d m"
      using email_update [OF assms(1) t(1), of "''password_hash''" _ "VText password_hash" email]
      by (auto simp: check_ok_def bindable_simps)
    have "update_user_password d email password_hash
            = (d', Inr (list_ex (holds ?we) (rows_of d ''users'')))"
      by (simp add: update_user_password_def u(1) filter_nonempty_list_ex)
    moreover have "\<forall>r c. getv (assign [(''password_hash'', VText password_hash)] r) c
                     = (if c = ''password_hash'' then VText password_hash else getv r c)"
      by (simp add: getv_assign1)
    ultimately show ?thesis using u(2,3) by blast
  qed
  have sv: "\<exists>d' f. set_user_verified d email
                    = (d', Inr (list_ex (holds ?we) (rows_of d ''users'')))
            \<and> map_of d' ''users'' = map_option (updated_rows ?we f) (map_of d ''users'')
            \<and> (\<forall>r c. getv (f r) c = (if c = ''verified'' then VInt 1 else getv r c))
            \<and> (\<forall>m. m \<noteq> ''users'' \<longrightarrow> map_of d' m = map_of d m)"
    if "verified_plain d"
  proof -
    from that obtain k where k: "find_col (t_cols t) ''verified'' = Some k"
      "c_check k = None" "\<not> c_unique k" "\<not> c_pk k"
      by (auto simp: verified_plain_def t(1) split: option.splits)
    obtain d' where u:
      "exec_update d ''users'' [(''verified'', VInt 1)] ?we
         = Inr (d', length (filter (holds ?we) (rows_of d ''users'')))"
      "map_of d' ''users''
         = map_option (updated_rows ?we (assign [(''verified'', VInt 1)])) (map_of d ''users'')"
      "\<forall>m. m \<noteq> ''users'' \<longrightarrow> map_of d' m = map_of d m"
      using email_update [OF assms(1) t(1) k(1), of "VInt 1" email] k(2-) b1(1)
      by (auto simp: check_ok_def bindable_simps)
    have "set_user_verified d email = (d', Inr (list_ex (holds ?we) (rows_of d ''users'')))"
      by (simp add: set_user_verified_def u(1) filter_nonempty_list_ex)
    moreover have "\<forall>r c. getv (assign [(''verified'', VInt 1)] r) c
                     = (if c = ''verified'' then VInt 1 else getv r c)"
      by (simp add: getv_assign1)
    ultimately show ?thesis using u(2,3) by blast
  qed
  have nv: "set_user_verified d email = (d, Inl OperationalError)"
    if "\<not> has_cols d ''users'' [''verified'']"
  proof -
    have "\<not> has_cols d ''users'' (map fst [(''verified'', VInt 1)])"
      using that by simp
    then show ?thesis
      by (simp add: set_user_verified_def no_column_update)
  qed
  show ?thesis
    using ban unban du dj pw sv nv by (intro conjI impI) assumption+
qed

theorem status_results_witness:
  "users_declared full_db \<and> applications_declared full_db \<and> ratings_declared full_db
   \<and> jobs_declared full_db \<and> job_ids_int full_db \<and> int64 99 \<and> verified_plain full_db
   \<and> filter (holds (Eq ''id'' (VInt 99))) (rows_of full_db ''users'') = []
   \<and> filter (holds (Eq ''id'' (VInt 99))) (rows_of full_db ''jobs'') = []
   \<and> snd (set_user_ban full_db 99 None) = Inr True
   \<and> snd (unset_user_ban full_db 99) = Inr True
   \<and> snd (delete_user full_db 99) = Inr True
   \<and> snd (delete_job full_db 99) = Inr True
   \<and> snd (update_user_password full_db ''nobody@x'' ''p'') = Inr False
   \<and> snd (set_user_verified full_db ''nobody@x'') = Inr False
   \<and> users_declared (init_db []) \<and> applications_declared (init_db [])
   \<and> ratings_declared (init_db []) \<and> jobs_declared (init_db []) \<and> job_ids_int (init_db [])
   \<and> \<not> has_cols (init_db []) ''users'' [''verified'']
   \<and> set_user_verified (init_db []) ''a@b.com'' = (init_db [], Inl OperationalError)"
proof -
  have h: "users_declared full_db" "applications_declared full_db" "ratings_declared full_db"
    "jobs_declared full_db" "job_ids_int full_db" "int64 99" "int64 99"
    by code_simp+
  have v: "verified_plain full_db"
    by code_simp
  have n: "filter (holds (Eq ''id'' (VInt 99))) (rows_of full_db ''users'') = []"
    "filter (holds (Eq ''id'' (VInt 99))) (rows_of full_db ''jobs'') = []"
    by code_simp+
  have e: "list_ex (holds (Eq ''email'' (VText ''nobody@x''))) (rows_of full_db ''users'') = False"
    by code_simp
  note r = status_results [OF h, of None "''nobody@x''" "''p''"]
  have r1: "snd (set_user_ban full_db 99 None) = Inr True"
    using r by fastforce
  have r2: "snd (unset_user_ban full_db 99) = Inr True"
    using r by fastforce
  have r3: "snd (delete_user full_db 99) = Inr True"
    using r by fastforce
  have r4: "snd (delete_job full_db 99) = Inr True"
    using r by fastforce
  have r5: "snd (update_user_password full_db ''nobody@x'' ''p'') = Inr False"
    using r unfolding e by fastforce
  have r6: "snd (set_user_verified full_db ''nobody@x'') = Inr False"
    using r v unfolding e by fastforce
  have g: "users_declared (init_db [])" "applications_declared (init_db [])"
    "ratings_declared (init_db [])" "jobs_declared (init_db [])" "job_ids_int (init_db [])"
    "int64 99" "int64 99"
    by code_simp+
  have m: "\<not> has_cols (init_db []) ''users'' [''verified'']"
    by code_simp
  have r7: "set_user_verified (init_db []) ''a@b.com'' = (init_db [], Inl OperationalError)"
    using status_results [OF g, of None "''a@b.com''" "''p''"] m by blast
  show ?thesis
    by (intro conjI h(1-6) v n r1 r2 r3 r4 r5 r6 g(1-5) m r7)
qed

end
